theory Spec2Isabelle
  imports Complex_Main
begin

section \<open>Python strings as lists of code points\<close>

text \<open>
  A Python \<open>str\<close> is a sequence of Unicode code points. The titles handled by the program
  are Chinese, so a string is modelled as a list of code points (natural numbers), and an
  ASCII literal is lifted with \<open>ascii\<close>.
\<close>

type_synonym ustr = "nat list"

definition ascii :: "string \<Rightarrow> ustr" where
  "ascii s = map of_char s"

text \<open>
  \<open>str.isspace\<close> on one code point; the same set is matched by \<open>\s\<close> in a
  \<open>str\<close> pattern of \<open>re\<close> and removed by \<open>str.strip()\<close>.
\<close>

definition is_space :: "nat \<Rightarrow> bool" where
  "is_space c \<longleftrightarrow>
     (9 \<le> c \<and> c \<le> 13) \<or> (28 \<le> c \<and> c \<le> 32) \<or> c = 133 \<or> c = 160 \<or> c = 5760 \<or>
     (8192 \<le> c \<and> c \<le> 8202) \<or> c = 8232 \<or> c = 8233 \<or> c = 8239 \<or> c = 8287 \<or> c = 12288"

text \<open>\<open>s.lstrip(chars)\<close>, \<open>s.rstrip(chars)\<close>, \<open>s.strip(chars)\<close> for a set of characters given as a predicate.\<close>

definition lstrip_by :: "(nat \<Rightarrow> bool) \<Rightarrow> ustr \<Rightarrow> ustr" where
  "lstrip_by P s = dropWhile P s"

definition rstrip_by :: "(nat \<Rightarrow> bool) \<Rightarrow> ustr \<Rightarrow> ustr" where
  "rstrip_by P s = rev (dropWhile P (rev s))"

definition strip_by :: "(nat \<Rightarrow> bool) \<Rightarrow> ustr \<Rightarrow> ustr" where
  "strip_by P s = rstrip_by P (lstrip_by P s)"

definition py_strip :: "ustr \<Rightarrow> ustr" where
  "py_strip s = strip_by is_space s"

definition py_rstrip :: "ustr \<Rightarrow> ustr" where
  "py_rstrip s = rstrip_by is_space s"

text \<open>\<open>str(n)\<close> for a non-negative integer: its decimal digits.\<close>

fun str_nat :: "nat \<Rightarrow> ustr" where
  "str_nat n = (if n < 10 then [48 + n] else str_nat (n div 10) @ [48 + n mod 10])"

declare str_nat.simps [simp del]

text \<open>Reading decimal digits back, the inverse of \<open>str_nat\<close>.\<close>

definition digits_value :: "ustr \<Rightarrow> nat" where
  "digits_value ds = foldl (\<lambda>a d. 10 * a + (d - 48)) 0 ds"

text \<open>\<open>str(i)\<close> for a Python integer: a minus sign (code point 45) before the digits of a negative one.\<close>

definition str_int :: "int \<Rightarrow> ustr" where
  "str_int i = (if i < 0 then 45 # str_nat (nat (- i)) else str_nat (nat i))"

text \<open>
  \<open>s.zfill(width)\<close>: pads with the digit zero on the left up to \<open>width\<close> characters,
  after a leading sign if there is one.
\<close>

definition zfill :: "nat \<Rightarrow> ustr \<Rightarrow> ustr" where
  "zfill width s =
     (if width \<le> length s then s
      else (case s of
              c # rest \<Rightarrow>
                if c = 43 \<or> c = 45 then c # replicate (width - length s) 48 @ rest
                else replicate (width - length s) 48 @ s
            | [] \<Rightarrow> replicate width 48))"

section \<open>rename.py\<close>

subsection \<open>\<open>sanitize_filename_component\<close>\<close>

text \<open>
  The pattern of \<open>_WINDOWS_INVALID_CHARS_RE\<close> is the raw string
  \<^verbatim>\<open>[<>:\"/\\\\|?*\\x00-\\x1F]\<close>. In a raw string every backslash stays, so inside the
  character class \<^verbatim>\<open>\\\<close> is an escaped backslash (three times), \<^verbatim>\<open>\"\<close> is a double
  quote, and the tail reads: the letter \<open>x\<close>, the digit \<open>0\<close>, the range from \<open>0\<close> (48) to
  backslash (92), the letter \<open>x\<close>, the digit \<open>1\<close> and the letter \<open>F\<close>. The class is
  therefore the double quote (34), \<open>*\<close> (42), \<open>/\<close> (47), every code point from 48 to 92
  (the digits, \<open>: ; < = > ? @\<close>, the upper-case letters, \<open>[\<close> and the backslash),
  \<open>x\<close> (120) and \<open>|\<close> (124). No control character is in it.
\<close>

definition windows_invalid_char :: "nat \<Rightarrow> bool" where
  "windows_invalid_char c \<longleftrightarrow>
     c = 60 \<or> c = 62 \<or> c = 58 \<or> c = 34 \<or> c = 47 \<or> c = 92 \<or> c = 92 \<or> c = 124 \<or> c = 63 \<or> c = 42 \<or>
     c = 92 \<or> c = 120 \<or> c = 48 \<or> (48 \<le> c \<and> c \<le> 92) \<or> c = 120 \<or> c = 49 \<or> c = 70"

text \<open>\<open>re.sub(r"\s+", " ", s)\<close>: every maximal run of white space becomes one space (32).\<close>

fun collapse_ws :: "bool \<Rightarrow> ustr \<Rightarrow> ustr" where
  "collapse_ws in_run [] = []"
| "collapse_ws in_run (c # cs) =
     (if is_space c then (if in_run then collapse_ws True cs else 32 # collapse_ws True cs)
      else c # collapse_ws False cs)"

text \<open>The fallback label of the source, the two code points U+6807 U+9898.\<close>

definition default_fallback :: ustr where
  "default_fallback = [26631, 39064]"

definition sanitize_filename_component :: "ustr \<Rightarrow> ustr \<Rightarrow> nat \<Rightarrow> ustr" where
  "sanitize_filename_component text fallback max_len =
     (let cleaned = py_strip (map (\<lambda>c. if c = 8203 then 32 else c) text);
          cleaned = collapse_ws False cleaned;
          cleaned = map (\<lambda>c. if windows_invalid_char c then 32 else c) cleaned;
          cleaned = strip_by (\<lambda>c. c = 32 \<or> c = 46) cleaned;
          cleaned = py_strip cleaned;
          cleaned = (if cleaned = [] then fallback else cleaned)
      in if length cleaned > max_len then py_rstrip (take max_len cleaned) else cleaned)"

subsection \<open>Paths\<close>

text \<open>
  A \<open>pathlib\<close> path with a final component: the directory part as written and the name.
  \<open>suffix\<close> and \<open>stem\<close> cut the name at its last dot, unless that dot is the first or the
  last character of the name.
\<close>

record path =
  parent :: ustr
  name :: ustr

datatype py_error =
    ValueError
  | TypeError

definition last_dot :: "ustr \<Rightarrow> nat option" where
  "last_dot nm =
     (case filter (\<lambda>i. nm ! i = 46) (rev [0..<length nm]) of
        [] \<Rightarrow> None | i # _ \<Rightarrow> Some i)"

definition suffix :: "ustr \<Rightarrow> ustr" where
  "suffix nm =
     (case last_dot nm of
        None \<Rightarrow> []
      | Some i \<Rightarrow> if 0 < i \<and> i < length nm - 1 then drop i nm else [])"

definition stem :: "ustr \<Rightarrow> ustr" where
  "stem nm =
     (case last_dot nm of
        None \<Rightarrow> nm
      | Some i \<Rightarrow> if 0 < i \<and> i < length nm - 1 then take i nm else nm)"

text \<open>
  \<open>p.with_name(n)\<close> raises \<open>ValueError\<close> when \<open>p\<close> has an empty name, or when \<open>n\<close> is
  empty, is a single dot or contains the separator (47).
\<close>

definition with_name :: "path \<Rightarrow> ustr \<Rightarrow> py_error + path" where
  "with_name p n =
     (if name p = [] then Inl ValueError
      else if n = [] \<or> 47 \<in> set n \<or> n = [46] then Inl ValueError
      else Inr (p\<lparr>name := n\<rparr>))"

subsection \<open>\<open>build_target_path\<close>\<close>

definition build_target_path :: "path \<Rightarrow> int \<Rightarrow> int \<Rightarrow> ustr \<Rightarrow> py_error + path" where
  "build_target_path src_path index index_padding title =
     (let safe_title = sanitize_filename_component title default_fallback 80;
          prefix = zfill (nat (max 1 index_padding)) (str_int index);
          filename = prefix @ [45] @ safe_title @ suffix (name src_path)
      in with_name src_path filename)"

subsection \<open>\<open>pick_non_conflicting_path\<close>\<close>

text \<open>
  The file system is the set of paths at which something exists. The candidate tried for
  a counter is \<open>parent / f"{stem}_{counter}{suffix}"\<close>, and the loop of the source has no
  bound: it is a partial function, \<open>None\<close> standing for a loop that never returns.
\<close>

definition candidate :: "path \<Rightarrow> nat \<Rightarrow> path" where
  "candidate target_path counter =
     target_path\<lparr>name := stem (name target_path) @ [95] @ str_nat counter @ suffix (name target_path)\<rparr>"

partial_function (option) find_candidate :: "path set \<Rightarrow> path \<Rightarrow> nat \<Rightarrow> path option" where
  "find_candidate fs target_path counter =
     (if candidate target_path counter \<notin> fs then Some (candidate target_path counter)
      else find_candidate fs target_path (counter + 1))"

definition pick_non_conflicting_path :: "path set \<Rightarrow> path \<Rightarrow> path option \<Rightarrow> path option" where
  "pick_non_conflicting_path fs target_path ignore_path =
     (if ignore_path \<noteq> None \<and> Some target_path = ignore_path then Some target_path
      else if target_path \<notin> fs then Some target_path
      else find_candidate fs target_path 2)"

section \<open>gui.py: the scanner\<close>

text \<open>
  Case mapping and digit classification are modelled on ASCII: \<open>str.lower\<close> maps
  \<open>A\<close>..\<open>Z\<close> to \<open>a\<close>..\<open>z\<close> and leaves every other code point as it is, and
  \<open>str.isdigit\<close> holds for a non-empty string of the digits \<open>0\<close>..\<open>9\<close>. The Unicode
  tables behind the two methods are not part of the repository.
\<close>

definition py_lower :: "ustr \<Rightarrow> ustr" where
  "py_lower s = map (\<lambda>c. if 65 \<le> c \<and> c \<le> 90 then c + 32 else c) s"

definition isdigit :: "ustr \<Rightarrow> bool" where
  "isdigit s \<longleftrightarrow> s \<noteq> [] \<and> list_all (\<lambda>c. 48 \<le> c \<and> c \<le> 57) s"

text \<open>
  \<open>re.split(r"(\\d+)", name)\<close>. The pattern is a raw string, so it is the regular
  expression \<^verbatim>\<open>(\\d+)\<close>: a backslash (92) followed by one or more letters \<open>d\<close> (100),
  not a run of digits. \<open>re.split\<close> with a group returns the text between the matches
  and the matches themselves, in order; \<open>cur\<close> is the text since the last match.
\<close>

function re_split_backslash_d :: "ustr \<Rightarrow> ustr \<Rightarrow> ustr list" where
  "re_split_backslash_d cur [] = [cur]"
| "re_split_backslash_d cur (c # cs) =
     (if c = 92 \<and> cs \<noteq> [] \<and> hd cs = 100
      then cur # (92 # takeWhile (\<lambda>d. d = 100) cs)
             # re_split_backslash_d [] (dropWhile (\<lambda>d. d = 100) cs)
      else re_split_backslash_d (cur @ [c]) cs)"
  by pat_completeness auto
termination
  by (relation "measure (\<lambda>(cur, s). length s)")
     (auto simp: less_Suc_eq_le length_dropWhile_le)

text \<open>An element of a sort key: \<open>int(part)\<close> or \<open>part.lower()\<close>.\<close>

datatype key_part = KInt nat | KStr ustr

definition natural_key :: "ustr \<Rightarrow> key_part list" where
  "natural_key nm =
     map (\<lambda>part. if isdigit part then KInt (digits_value part) else KStr (py_lower part))
       (re_split_backslash_d [] nm)"

text \<open>\<open>a < b\<close> on strings: lexicographic on code points.\<close>

fun str_lt :: "ustr \<Rightarrow> ustr \<Rightarrow> bool" where
  "str_lt [] [] = False"
| "str_lt [] (y # ys) = True"
| "str_lt (x # xs) [] = False"
| "str_lt (x # xs) (y # ys) = (if x = y then str_lt xs ys else x < y)"

text \<open>\<open>a < b\<close> on key elements: an integer and a string do not compare, Python raises \<open>TypeError\<close>.\<close>

fun part_lt :: "key_part \<Rightarrow> key_part \<Rightarrow> py_error + bool" where
  "part_lt (KInt a) (KInt b) = Inr (a < b)"
| "part_lt (KStr a) (KStr b) = Inr (str_lt a b)"
| "part_lt (KInt a) (KStr b) = Inl TypeError"
| "part_lt (KStr a) (KInt b) = Inl TypeError"

text \<open>
  \<open>a < b\<close> on lists: the first position where the elements differ decides, and a list
  that is a proper prefix of the other is the smaller one.
\<close>

fun key_lt :: "key_part list \<Rightarrow> key_part list \<Rightarrow> py_error + bool" where
  "key_lt [] [] = Inr False"
| "key_lt [] (b # bs) = Inr True"
| "key_lt (a # as) [] = Inr False"
| "key_lt (a # as) (b # bs) = (if a = b then key_lt as bs else part_lt a b)"

text \<open>
  \<open>videos.sort(key=...)\<close> is a stable sort. It is modelled as a stable insertion sort
  from left to right: an element goes before the first element of the sorted part whose
  key is greater. Python's sort makes other comparisons in another order, and gives the
  same list whenever no comparison raises.
\<close>

fun insert_by_key :: "path \<Rightarrow> path list \<Rightarrow> py_error + path list" where
  "insert_by_key x [] = Inr [x]"
| "insert_by_key x (y # ys) =
     (case key_lt (natural_key (name x)) (natural_key (name y)) of
        Inl e \<Rightarrow> Inl e
      | Inr True \<Rightarrow> Inr (x # y # ys)
      | Inr False \<Rightarrow> (case insert_by_key x ys of Inl e \<Rightarrow> Inl e | Inr r \<Rightarrow> Inr (y # r)))"

fun sort_by_key :: "path list \<Rightarrow> path list \<Rightarrow> py_error + path list" where
  "sort_by_key sorted_part [] = Inr sorted_part"
| "sort_by_key sorted_part (x # xs) =
     (case insert_by_key x sorted_part of
        Inl e \<Rightarrow> Inl e
      | Inr sorted_part' \<Rightarrow> sort_by_key sorted_part' xs)"

definition VIDEO_EXTS :: "ustr set" where
  "VIDEO_EXTS = {ascii ''.mp4'', ascii ''.mov'', ascii ''.mkv'', ascii ''.avi'', ascii ''.webm'', ascii ''.m4v''}"

text \<open>
  \<open>_scan_videos\<close>. The two directory listings (\<open>rglob("*")\<close> and \<open>iterdir()\<close>, each entry
  with the answer of \<open>is_file()\<close>) are inputs, in the order the operating system gives them.
\<close>

definition scan_videos :: "(path \<times> bool) list \<Rightarrow> (path \<times> bool) list \<Rightarrow> bool \<Rightarrow> py_error + path list" where
  "scan_videos rglob_listing iterdir_listing include_subdirs =
     (let candidates =
            (if include_subdirs then map fst (filter snd rglob_listing)
             else map fst (filter snd iterdir_listing));
          videos = filter (\<lambda>p. py_lower (suffix (name p)) \<in> VIDEO_EXTS) candidates
      in sort_by_key [] videos)"

section \<open>Errors and HTTP\<close>

text \<open>
  The exceptions of the program. A message is kept as a tag that names the \<open>raise\<close>
  statement; \<open>cause\<close> is what \<open>raise ... from exc\<close> attaches. An exception that no
  handler of the module catches is \<open>PyError\<close>.
\<close>

datatype cause = NoCause | FromRequestException nat | FromValueError | FromTimeoutExpired | FromException

datatype baidu_msg =
    MissingKeys | TokenRequestFailed | TokenNotJson | TokenLoopExhausted | TokenMissing
  | UnknownEndpoint | OcrRequestFailed | OcrNotJson | OcrLoopExhausted | OcrErrorCode

datatype deepseek_msg =
    MissingApiKey | EmptyOcrText | EmptySystemPrompt | EmptyUserPromptTemplate
  | RequestFailed | ReplyNotJson | RequestLoopExhausted | ReplyMalformed

datatype video_msg =
    BadFrameNumber | FfmpegNotFound | FfmpegTimeout | FfmpegFailed | ReadFrameFailed | PngDecodeFailed

datatype error =
    BaiduOcrError baidu_msg cause
  | DeepSeekError deepseek_msg cause
  | VideoFrameError video_msg cause
  | OSError
  | PyError py_error

text \<open>
  What the program reads from a decoded JSON reply: \<open>payload.get("access_token")\<close>
  (empty when absent or falsy), \<open>int(payload.get("expires_in", 0))\<close> (an error when the
  conversion raises), \<open>"error_code" in payload\<close>, the \<open>words\<close> of the items of
  \<open>words_result\<close>, and \<open>payload["choices"][0]["message"]["content"]\<close> (\<open>None\<close> when the
  access raises).
\<close>

record payload =
  access_token :: ustr
  expires_in :: "py_error + int"
  has_error_code :: bool
  words_result :: "ustr list"
  content :: "ustr option"

text \<open>
  One \<open>requests.post\<close> with \<open>raise_for_status()\<close> and \<open>json()\<close> ends in one of three ways:
  a \<open>requests.RequestException\<close> (numbered, to tell the exceptions apart), a \<open>ValueError\<close>
  that is not a \<open>RequestException\<close>, or a decoded payload.
\<close>

datatype http_outcome = RequestException nat | NotJson | Json payload

datatype request =
    TokenRequest ustr ustr int
  | OcrRequest ustr ustr ustr ustr bool int
  | ChatRequest ustr ustr ustr ustr ustr int

text \<open>
  The world outside: the requests sent so far and the durations passed to \<open>time.sleep\<close>,
  in seconds. The network is a function \<open>net\<close> from the number of a request (counted
  from 0 over the whole run) to the way it ends. \<open>time.sleep(1.0 * (2**attempt))\<close> is
  recorded as the number \<open>2 ^ attempt\<close>: the floating-point product is that number exactly
  for every attempt below 1024, and a run reaches attempt \<open>n\<close> only after sleeping
  \<open>2 ^ n - 1\<close> seconds.
\<close>

record world =
  sent :: "request list"
  slept :: "nat list"

datatype failure = TransportFailed nat | ResponseNotJson | LoopExhausted "nat option"

text \<open>
  The retry loop, written three times in the source (token, OCR, chat completion) with
  three sets of messages: \<open>for attempt in range(retries)\<close>, a \<open>break\<close> on a payload, a
  \<open>raise ... from exc\<close> on the last attempt, a sleep otherwise, a \<open>raise\<close> on a reply that
  is not JSON, and the \<open>else\<close> branch of the \<open>for\<close>. \<open>mk\<close> builds the module's exception.
\<close>

function post_with_retries ::
  "(nat \<Rightarrow> http_outcome) \<Rightarrow> request \<Rightarrow> nat \<Rightarrow> (failure \<Rightarrow> error) \<Rightarrow> nat \<Rightarrow> nat option \<Rightarrow> world
     \<Rightarrow> (error + payload) \<times> world" where
  "post_with_retries net req retries mk attempt last_exc w =
     (if retries \<le> attempt then (Inl (mk (LoopExhausted last_exc)), w)
      else
        (case net (length (sent w)) of
           Json p \<Rightarrow> (Inr p, w\<lparr>sent := sent w @ [req]\<rparr>)
         | RequestException exc \<Rightarrow>
             if retries \<le> attempt + 1
             then (Inl (mk (TransportFailed exc)), w\<lparr>sent := sent w @ [req]\<rparr>)
             else post_with_retries net req retries mk (attempt + 1) (Some exc)
                    (w\<lparr>sent := sent w @ [req], slept := slept w @ [2 ^ attempt]\<rparr>)
         | NotJson \<Rightarrow> (Inl (mk ResponseNotJson), w\<lparr>sent := sent w @ [req]\<rparr>)))"
  by pat_completeness auto
termination
  by (relation "measure (\<lambda>(net, req, retries, mk, attempt, last_exc, w). retries - attempt)") auto

declare post_with_retries.simps [simp del]

section \<open>deepseek.py\<close>

text \<open>\<open>str.splitlines()\<close>: the line boundaries, and \<open>\r\n\<close> as one boundary.\<close>

definition is_linebreak :: "nat \<Rightarrow> bool" where
  "is_linebreak c \<longleftrightarrow> (10 \<le> c \<and> c \<le> 13) \<or> (28 \<le> c \<and> c \<le> 30) \<or> c = 133 \<or> c = 8232 \<or> c = 8233"

fun splitlines_aux :: "ustr \<Rightarrow> bool \<Rightarrow> ustr \<Rightarrow> ustr list" where
  "splitlines_aux cur after_cr [] = (if cur = [] then [] else [cur])"
| "splitlines_aux cur after_cr (c # cs) =
     (if after_cr \<and> c = 10 then splitlines_aux [] False cs
      else if is_linebreak c then cur # splitlines_aux [] (c = 13) cs
      else splitlines_aux (cur @ [c]) False cs)"

definition splitlines :: "ustr \<Rightarrow> ustr list" where
  "splitlines s = splitlines_aux [] False s"

fun first_stripped :: "ustr list \<Rightarrow> ustr" where
  "first_stripped [] = []"
| "first_stripped (line # lines) =
     (let stripped = py_strip line in if stripped \<noteq> [] then stripped else first_stripped lines)"

definition first_non_empty_line :: "ustr \<Rightarrow> ustr" where
  "first_non_empty_line text = first_stripped (splitlines text)"

text \<open>
  The first \<open>re.sub\<close> of the cleanup, with the pattern \<open>^Q+|Q+$\<close> where \<open>Q\<close> is the
  class of the quote characters and \<open>\s\<close>: the quote characters are
  \<open>"\<close> (34), \<open>'\<close> (39), U+201C (8220) and U+201D (8221). On a title without a line feed
  (it is one stripped line) the substitution removes the leading and the trailing run.
\<close>

definition is_quote_or_space :: "nat \<Rightarrow> bool" where
  "is_quote_or_space c \<longleftrightarrow> c = 34 \<or> c = 8220 \<or> c = 8221 \<or> c = 39 \<or> is_space c"

definition sub_quotes :: "ustr \<Rightarrow> ustr" where
  "sub_quotes title = strip_by is_quote_or_space title"

text \<open>
  The second \<open>re.sub\<close> of the cleanup, with \<open>IGNORECASE\<close> and the pattern
  \<open>^(L|title)S+\<close> where \<open>L\<close> is the Chinese label: the label is
  U+6807 U+9898 or the word \<open>title\<close> in any case (under \<open>IGNORECASE\<close> the letter \<open>i\<close> also
  matches U+0130 and U+0131), and it must be followed by at least one of \<open>:\<close> (58),
  U+FF1A (65306) or white space; the label and the whole run after it are removed.
\<close>

definition is_label_sep :: "nat \<Rightarrow> bool" where
  "is_label_sep c \<longleftrightarrow> c = 58 \<or> c = 65306 \<or> is_space c"

fun is_title_word :: "ustr \<Rightarrow> bool" where
  "is_title_word [a, b, c, d, e] \<longleftrightarrow>
     (a = 116 \<or> a = 84) \<and> (b = 105 \<or> b = 73 \<or> b = 304 \<or> b = 305) \<and> (c = 116 \<or> c = 84)
     \<and> (d = 108 \<or> d = 76) \<and> (e = 101 \<or> e = 69)"
| "is_title_word _ \<longleftrightarrow> False"

definition after_label :: "ustr \<Rightarrow> ustr option" where
  "after_label title =
     (if take 2 title = [26631, 39064] then Some (drop 2 title)
      else if is_title_word (take 5 title) then Some (drop 5 title)
      else None)"

definition sub_label :: "ustr \<Rightarrow> ustr" where
  "sub_label title =
     (case after_label title of
        None \<Rightarrow> title
      | Some rest \<Rightarrow>
          (case rest of
             [] \<Rightarrow> title
           | c # _ \<Rightarrow> if is_label_sep c then dropWhile is_label_sep rest else title))"

text \<open>The last four statements of \<open>extract_title_sentence\<close>, from the content to the title.\<close>

definition title_of_content :: "ustr \<Rightarrow> ustr" where
  "title_of_content content_text =
     (let title = first_non_empty_line content_text;
          title = py_strip (sub_quotes title);
          title = py_strip (sub_label title)
      in title)"

definition deepseek_error :: "failure \<Rightarrow> error" where
  "deepseek_error f =
     (case f of
        TransportFailed exc \<Rightarrow> DeepSeekError RequestFailed (FromRequestException exc)
      | ResponseNotJson \<Rightarrow> DeepSeekError ReplyNotJson FromValueError
      | LoopExhausted last_exc \<Rightarrow> DeepSeekError RequestLoopExhausted NoCause)"

text \<open>
  \<open>extract_title_sentence\<close>. \<open>fmt\<close> stands for \<open>user_prompt_template.format(ocr_text=...)\<close>,
  \<open>None\<close> when it raises.
\<close>

definition extract_title_sentence ::
  "(nat \<Rightarrow> http_outcome) \<Rightarrow> (ustr \<Rightarrow> ustr \<Rightarrow> ustr option) \<Rightarrow>
   ustr \<Rightarrow> ustr \<Rightarrow> ustr \<Rightarrow> ustr \<Rightarrow> ustr \<Rightarrow> ustr \<Rightarrow> int \<Rightarrow> int \<Rightarrow> world \<Rightarrow> (error + ustr) \<times> world" where
  "extract_title_sentence net fmt api_key base_url model ocr_text system_prompt user_prompt_template
       timeout_s retries w =
     (let api_key = py_strip api_key in
      if api_key = [] then (Inl (DeepSeekError MissingApiKey NoCause), w)
      else if py_strip ocr_text = [] then (Inl (DeepSeekError EmptyOcrText NoCause), w)
      else
        let base_url = rstrip_by (\<lambda>c. c = 47) (py_strip base_url);
            base_url = (if base_url = [] then ascii ''https://api.deepseek.com/v1'' else base_url);
            url = base_url @ ascii ''/chat/completions'';
            system_prompt = py_strip system_prompt;
            user_prompt_template = py_strip user_prompt_template
        in
        if system_prompt = [] then (Inl (DeepSeekError EmptySystemPrompt NoCause), w)
        else if user_prompt_template = [] then (Inl (DeepSeekError EmptyUserPromptTemplate NoCause), w)
        else
          let user_prompt =
                (case fmt user_prompt_template ocr_text of
                   Some s \<Rightarrow> s
                 | None \<Rightarrow> py_rstrip user_prompt_template
                            @ [10, 10, 79, 67, 82, 32, 25991, 26412, 65306, 10] @ ocr_text);
              retries = nat (max 1 retries);
              req = ChatRequest url api_key (if model = [] then ascii ''deepseek-chat'' else model)
                      system_prompt user_prompt timeout_s
          in
          (case post_with_retries net req retries deepseek_error 0 None w of
             (Inl e, w') \<Rightarrow> (Inl e, w')
           | (Inr p, w') \<Rightarrow>
               (case content p of
                  None \<Rightarrow> (Inl (DeepSeekError ReplyMalformed FromException), w')
                | Some content_text \<Rightarrow> (Inr (title_of_content content_text), w'))))"

section \<open>baidu_ocr.py\<close>

record TokenCache =
  token :: ustr
  expires_at_epoch :: real

record BaiduOcrClient =
  client_api_key :: ustr
  client_secret_key :: ustr
  client_timeout_s :: int
  client_retries :: nat
  token_cache :: TokenCache

text \<open>The constructor \<open>BaiduOcrClient.__init__\<close>.\<close>

definition new_BaiduOcrClient :: "ustr \<Rightarrow> ustr \<Rightarrow> int \<Rightarrow> int \<Rightarrow> BaiduOcrClient" where
  "new_BaiduOcrClient api_key secret_key timeout_s retries =
     \<lparr>client_api_key = py_strip api_key,
      client_secret_key = py_strip secret_key,
      client_timeout_s = max 5 timeout_s,
      client_retries = nat (max 1 retries),
      token_cache = \<lparr>token = [], expires_at_epoch = 0\<rparr>\<rparr>"

definition baidu_token_error :: "failure \<Rightarrow> error" where
  "baidu_token_error f =
     (case f of
        TransportFailed exc \<Rightarrow> BaiduOcrError TokenRequestFailed (FromRequestException exc)
      | ResponseNotJson \<Rightarrow> BaiduOcrError TokenNotJson FromValueError
      | LoopExhausted last_exc \<Rightarrow> BaiduOcrError TokenLoopExhausted NoCause)"

definition baidu_ocr_error :: "failure \<Rightarrow> error" where
  "baidu_ocr_error f =
     (case f of
        TransportFailed exc \<Rightarrow> BaiduOcrError OcrRequestFailed (FromRequestException exc)
      | ResponseNotJson \<Rightarrow> BaiduOcrError OcrNotJson FromValueError
      | LoopExhausted last_exc \<Rightarrow> BaiduOcrError OcrLoopExhausted NoCause)"

text \<open>
  \<open>_get_access_token\<close>. \<open>now\<close> is the value of \<open>time.time()\<close> read at the start of the
  call. The client object is mutated (its cache), so it is returned with the world.
\<close>

definition get_access_token ::
  "(nat \<Rightarrow> http_outcome) \<Rightarrow> real \<Rightarrow> BaiduOcrClient \<Rightarrow> world
     \<Rightarrow> (error + ustr) \<times> BaiduOcrClient \<times> world" where
  "get_access_token net now self w =
     (if token (token_cache self) \<noteq> [] \<and> now < expires_at_epoch (token_cache self)
      then (Inr (token (token_cache self)), self, w)
      else if client_api_key self = [] \<or> client_secret_key self = []
      then (Inl (BaiduOcrError MissingKeys NoCause), self, w)
      else
        (case post_with_retries net
                (TokenRequest (client_api_key self) (client_secret_key self) (client_timeout_s self))
                (client_retries self) baidu_token_error 0 None w of
           (Inl e, w') \<Rightarrow> (Inl e, self, w')
         | (Inr p, w') \<Rightarrow>
             (case expires_in p of
                Inl e \<Rightarrow> (Inl (PyError e), self, w')
              | Inr ttl \<Rightarrow>
                  if access_token p = [] then (Inl (BaiduOcrError TokenMissing NoCause), self, w')
                  else (Inr (access_token p),
                        self\<lparr>token_cache :=
                               \<lparr>token = access_token p,
                                expires_at_epoch = now + real_of_int (max 0 (ttl - 60))\<rparr>\<rparr>,
                        w'))))"

text \<open>\<open>"\n".join(words)\<close>.\<close>

fun join_newline :: "ustr list \<Rightarrow> ustr" where
  "join_newline [] = []"
| "join_newline [x] = x"
| "join_newline (x # y # ys) = x @ [10] @ join_newline (y # ys)"

definition OCR_ACCURATE_BASIC_URL :: ustr where
  "OCR_ACCURATE_BASIC_URL = ascii ''https://aip.baidubce.com/rest/2.0/ocr/v1/accurate_basic''"

definition OCR_GENERAL_BASIC_URL :: ustr where
  "OCR_GENERAL_BASIC_URL = ascii ''https://aip.baidubce.com/rest/2.0/ocr/v1/general_basic''"

text \<open>
  \<open>recognize\<close>. \<open>encode\<close> stands for the image preparation, which is library code:
  \<open>base64.b64encode(_maybe_compress_image_for_ocr(image_bytes)).decode("ascii")\<close>.
\<close>

definition recognize ::
  "(nat \<Rightarrow> http_outcome) \<Rightarrow> real \<Rightarrow> (nat list \<Rightarrow> ustr) \<Rightarrow> BaiduOcrClient \<Rightarrow> world
     \<Rightarrow> nat list \<Rightarrow> ustr \<Rightarrow> ustr \<Rightarrow> bool \<Rightarrow> (error + ustr) \<times> BaiduOcrClient \<times> world" where
  "recognize net now encode self w image_bytes endpoint language_type detect_direction =
     (case get_access_token net now self w of
        (Inl e, self', w') \<Rightarrow> (Inl e, self', w')
      | (Inr tok, self', w') \<Rightarrow>
          (let endpoint = py_lower (py_strip (if endpoint = [] then ascii ''accurate_basic'' else endpoint))
           in
           if endpoint \<noteq> ascii ''accurate_basic'' \<and> endpoint \<noteq> ascii ''general_basic''
           then (Inl (BaiduOcrError UnknownEndpoint NoCause), self', w')
           else
             (let url = (if endpoint = ascii ''accurate_basic'' then OCR_ACCURATE_BASIC_URL
                         else OCR_GENERAL_BASIC_URL);
                  image_b64 = encode image_bytes
              in
              (case post_with_retries net
                      (OcrRequest url tok image_b64 language_type detect_direction (client_timeout_s self'))
                      (client_retries self') baidu_ocr_error 0 None w' of
                 (Inl e, w'') \<Rightarrow> (Inl e, self', w'')
               | (Inr p, w'') \<Rightarrow>
                   if has_error_code p then (Inl (BaiduOcrError OcrErrorCode NoCause), self', w'')
                   else (Inr (py_strip (join_newline (filter (\<lambda>v. v \<noteq> []) (words_result p)))),
                         self', w'')))))"

text \<open>
  The world after \<open>r\<close> attempts of one request from \<open>w\<close>: \<open>r\<close> requests sent and the
  sleeps 1, 2, 4, ... between them.
\<close>

definition backoff_world :: "world \<Rightarrow> request \<Rightarrow> nat \<Rightarrow> world" where
  "backoff_world w req r = w\<lparr>sent := sent w @ replicate r req, slept := slept w @ map (\<lambda>i. 2 ^ i) [0..<r - 1]\<rparr>"

section \<open>video.py\<close>

text \<open>
  \<open>subprocess.run(args, check=False, capture_output=True, timeout=60)\<close> either raises
  \<open>TimeoutExpired\<close> or completes with a return code, standard output and standard error.
  The processes are an input of the model: \<open>run k\<close> is the way the \<open>k\<close>-th process started
  (counted from 0) ends, and the argument lists of the processes started so far are the
  state.
\<close>

datatype proc_result = TimeoutExpired | Completed int "nat list" "nat list"

text \<open>\<open>str(path)\<close>.\<close>

definition path_str :: "path \<Rightarrow> ustr" where
  "path_str p =
     (if parent p = [46] then name p
      else if parent p \<noteq> [] \<and> last (parent p) = 47 then parent p @ name p
      else parent p @ [47] @ name p)"

definition run_extract ::
  "(nat \<Rightarrow> proc_result) \<Rightarrow> ustr list list \<Rightarrow> ustr list \<Rightarrow> (error + nat list) \<times> ustr list list" where
  "run_extract run procs args =
     (case run (length procs) of
        TimeoutExpired \<Rightarrow> (Inl (VideoFrameError FfmpegTimeout FromTimeoutExpired), procs @ [args])
      | Completed returncode out err \<Rightarrow>
          if returncode \<noteq> 0 then (Inl (VideoFrameError FfmpegFailed NoCause), procs @ [args])
          else (Inr out, procs @ [args]))"

text \<open>The two argument lists of the source: the frame selected by its index, and the last frame.\<close>

definition select_args :: "ustr \<Rightarrow> path \<Rightarrow> int \<Rightarrow> ustr list" where
  "select_args ffmpeg video_path frame_index =
     [ffmpeg, ascii ''-hide_banner'', ascii ''-loglevel'', ascii ''error'', ascii ''-nostdin'',
      ascii ''-i'', path_str video_path, ascii ''-map'', ascii ''0:v:0'', ascii ''-vf'',
      ascii ''select=eq(n'' @ [92, 44] @ str_int frame_index @ ascii '')'',
      ascii ''-frames:v'', ascii ''1'', ascii ''-f'', ascii ''image2pipe'', ascii ''-vcodec'',
      ascii ''png'', ascii ''pipe:1'']"

definition last_frame_args :: "ustr \<Rightarrow> path \<Rightarrow> ustr list" where
  "last_frame_args ffmpeg video_path =
     [ffmpeg, ascii ''-hide_banner'', ascii ''-loglevel'', ascii ''error'', ascii ''-nostdin'',
      ascii ''-sseof'', ascii ''-0.1'', ascii ''-i'', path_str video_path, ascii ''-map'',
      ascii ''0:v:0'', ascii ''-frames:v'', ascii ''1'', ascii ''-f'', ascii ''image2pipe'',
      ascii ''-vcodec'', ascii ''png'', ascii ''pipe:1'']"

text \<open>\<open>Image.open(io.BytesIO(png_bytes))\<close> and \<open>image.load()\<close>: \<open>decode\<close>, \<open>None\<close> when they raise.\<close>

definition decode_png :: "(nat list \<Rightarrow> 'img option) \<Rightarrow> nat list \<Rightarrow> error + nat list \<times> 'img" where
  "decode_png decode png_bytes =
     (case decode png_bytes of
        None \<Rightarrow> Inl (VideoFrameError PngDecodeFailed FromException)
      | Some img \<Rightarrow> Inr (png_bytes, img))"

text \<open>
  \<open>extract_frame_as_png_bytes\<close>. \<open>which\<close> is \<open>shutil.which\<close>; an empty string is falsy, as
  \<open>None\<close> is.
\<close>

definition extract_frame_as_png_bytes ::
  "(ustr \<Rightarrow> ustr option) \<Rightarrow> (nat \<Rightarrow> proc_result) \<Rightarrow> (nat list \<Rightarrow> 'img option) \<Rightarrow> ustr list list
     \<Rightarrow> path \<Rightarrow> int \<Rightarrow> (error + nat list \<times> 'img) \<times> ustr list list" where
  "extract_frame_as_png_bytes which run decode procs video_path frame_number_1based =
     (if frame_number_1based < 1 then (Inl (VideoFrameError BadFrameNumber NoCause), procs)
      else
        (let found = (case which (ascii ''ffmpeg'') of
                        Some f \<Rightarrow> if f \<noteq> [] then Some f else which (ascii ''ffmpeg.exe'')
                      | None \<Rightarrow> which (ascii ''ffmpeg.exe''))
         in case found of
              None \<Rightarrow> (Inl (VideoFrameError FfmpegNotFound NoCause), procs)
            | Some ffmpeg \<Rightarrow>
                if ffmpeg = [] then (Inl (VideoFrameError FfmpegNotFound NoCause), procs)
                else
                  (let frame_index = frame_number_1based - 1 in
                   case run_extract run procs (select_args ffmpeg video_path frame_index) of
                     (Inl e, procs1) \<Rightarrow> (Inl e, procs1)
                   | (Inr png_bytes, procs1) \<Rightarrow>
                       if png_bytes = [] then
                         (case run_extract run procs1 (last_frame_args ffmpeg video_path) of
                            (Inl e, procs2) \<Rightarrow> (Inl e, procs2)
                          | (Inr png_bytes, procs2) \<Rightarrow>
                              if png_bytes = []
                              then (Inl (VideoFrameError ReadFrameFailed NoCause), procs2)
                              else (decode_png decode png_bytes, procs2))
                       else (decode_png decode png_bytes, procs1))))"

section \<open>config.py\<close>

record AppConfig =
  input_dir :: ustr
  include_subdirs :: bool
  frame_number_1based :: int
  start_index :: int
  index_padding :: int
  dry_run :: bool
  baidu_api_key :: ustr
  baidu_secret_key :: ustr
  baidu_ocr_mode :: ustr
  deepseek_api_key :: ustr
  deepseek_base_url :: ustr
  deepseek_model :: ustr
  deepseek_system_prompt :: ustr
  deepseek_user_prompt_template :: ustr
  save_keys_locally :: bool
  recent_dirs :: "ustr list"

text \<open>The values of the dictionary that \<open>asdict\<close> builds, and of the JSON document written.\<close>

datatype json_value = JStr ustr | JBool bool | JInt int | JList "json_value list"

definition asdict :: "AppConfig \<Rightarrow> (string \<times> json_value) list" where
  "asdict config =
     [(''input_dir'', JStr (input_dir config)),
      (''include_subdirs'', JBool (include_subdirs config)),
      (''frame_number_1based'', JInt (frame_number_1based config)),
      (''start_index'', JInt (start_index config)),
      (''index_padding'', JInt (index_padding config)),
      (''dry_run'', JBool (dry_run config)),
      (''baidu_api_key'', JStr (baidu_api_key config)),
      (''baidu_secret_key'', JStr (baidu_secret_key config)),
      (''baidu_ocr_mode'', JStr (baidu_ocr_mode config)),
      (''deepseek_api_key'', JStr (deepseek_api_key config)),
      (''deepseek_base_url'', JStr (deepseek_base_url config)),
      (''deepseek_model'', JStr (deepseek_model config)),
      (''deepseek_system_prompt'', JStr (deepseek_system_prompt config)),
      (''deepseek_user_prompt_template'', JStr (deepseek_user_prompt_template config)),
      (''save_keys_locally'', JBool (save_keys_locally config)),
      (''recent_dirs'', JList (map JStr (recent_dirs config)))]"

text \<open>\<open>data[key] = value\<close> on a dictionary: the value of a present key is replaced in place.\<close>

fun dict_set :: "string \<Rightarrow> 'v \<Rightarrow> (string \<times> 'v) list \<Rightarrow> (string \<times> 'v) list" where
  "dict_set key v [] = [(key, v)]"
| "dict_set key v ((k, x) # rest) = (if k = key then (k, v) # rest else (k, x) # dict_set key v rest)"

text \<open>
  \<open>save_config\<close>. A file holds the JSON document that \<open>json.dumps\<close> renders, here the
  dictionary itself. The configuration object is passed by reference, so it is returned
  next to the files to show what the call leaves of it.
\<close>

definition save_config ::
  "path \<Rightarrow> AppConfig \<Rightarrow> (path \<rightharpoonup> (string \<times> json_value) list)
     \<Rightarrow> AppConfig \<times> (path \<rightharpoonup> (string \<times> json_value) list)" where
  "save_config p config files =
     (let data = asdict config;
          data = (if \<not> save_keys_locally config
                  then dict_set ''deepseek_api_key'' (JStr [])
                         (dict_set ''baidu_secret_key'' (JStr [])
                            (dict_set ''baidu_api_key'' (JStr []) data))
                  else data)
      in (config, files(p \<mapsto> data)))"

section \<open>gui.py: the batch worker\<close>

text \<open>
  The events that \<open>_run_worker\<close> puts on the queue. An \<open>error\<close> event carries the stage
  and the exception instead of the formatted message (\<open>f"{stage}...{exc}"\<close> for the four
  exception classes the worker names, the traceback for any other exception).
\<close>

datatype 'img event =
    StatusEvent path ustr
  | PreviewEvent path 'img
  | OcrEvent path ustr
  | TitleEvent path ustr ustr
  | RenamedEvent path path
  | ErrorEvent path ustr error
  | ProgressEvent nat
  | DoneEvent ustr

text \<open>
  What the worker reads from outside: \<open>shutil.which\<close>, the processes, the image decoder,
  the network, \<open>time.time()\<close> during the item at an offset, \<open>str.format\<close>, the image
  encoding, and the stop flag as it is when the worker tests it before the item at an
  offset.
\<close>

record 'img env =
  env_which :: "ustr \<Rightarrow> ustr option"
  env_run :: "nat \<Rightarrow> proc_result"
  env_decode :: "nat list \<Rightarrow> 'img option"
  env_net :: "nat \<Rightarrow> http_outcome"
  env_now :: "nat \<Rightarrow> real"
  env_fmt :: "ustr \<Rightarrow> ustr \<Rightarrow> ustr option"
  env_encode :: "nat list \<Rightarrow> ustr"
  env_stop :: "nat \<Rightarrow> bool"

record 'img worker_state =
  ws_queue :: "'img event list"
  ws_disk :: "path set"
  ws_http :: world
  ws_procs :: "ustr list list"
  ws_client :: BaiduOcrClient

text \<open>The status texts and stage names of the source, as code points.\<close>

definition STATUS_READING :: ustr where "STATUS_READING = [35835, 21462, 24103, 8230]"
definition STATUS_OCR :: ustr where "STATUS_OCR = [79, 67, 82, 8230]"
definition STATUS_DEEPSEEK :: ustr where "STATUS_DEEPSEEK = [68, 101, 101, 112, 83, 101, 101, 107, 8230]"
definition STATUS_DONE :: ustr where "STATUS_DONE = [23436, 25104]"
definition STATUS_PREVIEW :: ustr where "STATUS_PREVIEW = [39044, 35272]"
definition STAGE_FRAME :: ustr where "STAGE_FRAME = [35835, 21462, 24103]"
definition STAGE_OCR :: ustr where "STAGE_OCR = [79, 67, 82]"
definition STAGE_DEEPSEEK :: ustr where "STAGE_DEEPSEEK = [68, 101, 101, 112, 83, 101, 101, 107]"
definition STAGE_RENAME :: ustr where "STAGE_RENAME = [37325, 21629, 21517]"
definition DONE_MESSAGE :: ustr where "DONE_MESSAGE = [22788, 29702, 32467, 26463, 12290]"

definition put :: "'img event \<Rightarrow> 'img worker_state \<Rightarrow> 'img worker_state" where
  "put ev st = st\<lparr>ws_queue := ws_queue st @ [ev]\<rparr>"

text \<open>\<open>old_path.rename(target)\<close>: \<open>OSError\<close> when the source does not exist.\<close>

definition path_rename :: "path set \<Rightarrow> path \<Rightarrow> path \<Rightarrow> error + path set" where
  "path_rename disk old_path target =
     (if old_path \<notin> disk then Inl OSError else Inr (insert target (disk - {old_path})))"

text \<open>The two \<open>except\<close> clauses and the \<open>finally\<close> clause of the loop body.\<close>

definition item_failed :: "nat \<Rightarrow> path \<Rightarrow> ustr \<Rightarrow> error \<Rightarrow> 'img worker_state \<Rightarrow> 'img worker_state" where
  "item_failed offset row_path stage e st =
     put (ProgressEvent (offset + 1)) (put (ErrorEvent row_path stage e) st)"

text \<open>
  One iteration of the loop of \<open>_run_worker\<close>, after the test of the stop flag. The result
  is \<open>None\<close> when the suffix loop of \<open>pick_non_conflicting_path\<close> does not return.
\<close>

definition process_item ::
  "'img env \<Rightarrow> AppConfig \<Rightarrow> nat \<Rightarrow> path \<Rightarrow> 'img worker_state \<Rightarrow> 'img worker_state option" where
  "process_item env cfg offset row_path st0 =
     (let fixed_index = (if start_index cfg = 0 then 1 else start_index cfg) + int offset;
          st = put (StatusEvent row_path STATUS_READING) st0
      in
      case extract_frame_as_png_bytes (env_which env) (env_run env) (env_decode env) (ws_procs st)
             row_path (frame_number_1based cfg) of
        (Inl e, procs') \<Rightarrow> Some (item_failed offset row_path STAGE_FRAME e (st\<lparr>ws_procs := procs'\<rparr>))
      | (Inr (png_bytes, img), procs') \<Rightarrow>
          (let st = put (StatusEvent row_path STATUS_OCR)
                      (put (PreviewEvent row_path img) (st\<lparr>ws_procs := procs'\<rparr>))
           in
           case recognize (env_net env) (env_now env offset) (env_encode env) (ws_client st)
                  (ws_http st) png_bytes (baidu_ocr_mode cfg) (ascii ''CHN_ENG'') True of
             (Inl e, client', http') \<Rightarrow>
               Some (item_failed offset row_path STAGE_OCR e (st\<lparr>ws_client := client', ws_http := http'\<rparr>))
           | (Inr ocr_text, client', http') \<Rightarrow>
               (let st = put (StatusEvent row_path STATUS_DEEPSEEK)
                           (put (OcrEvent row_path ocr_text)
                              (st\<lparr>ws_client := client', ws_http := http'\<rparr>))
                in
                case extract_title_sentence (env_net env) (env_fmt env) (deepseek_api_key cfg)
                       (deepseek_base_url cfg) (deepseek_model cfg) ocr_text
                       (deepseek_system_prompt cfg) (deepseek_user_prompt_template cfg) 60 2
                       (ws_http st) of
                  (Inl e, http') \<Rightarrow>
                    Some (item_failed offset row_path STAGE_DEEPSEEK e (st\<lparr>ws_http := http'\<rparr>))
                | (Inr title, http') \<Rightarrow>
                    (let st = st\<lparr>ws_http := http'\<rparr> in
                     case build_target_path row_path fixed_index (index_padding cfg) title of
                       Inl e \<Rightarrow> Some (item_failed offset row_path STAGE_DEEPSEEK (PyError e) st)
                     | Inr target \<Rightarrow>
                         (case pick_non_conflicting_path (ws_disk st) target None of
                            None \<Rightarrow> None
                          | Some target \<Rightarrow>
                              (let st = put (TitleEvent row_path title (name target)) st in
                               if \<not> dry_run cfg then
                                 (case path_rename (ws_disk st) row_path target of
                                    Inl e \<Rightarrow> Some (item_failed offset row_path STAGE_RENAME e st)
                                  | Inr disk' \<Rightarrow>
                                      Some (put (ProgressEvent (offset + 1))
                                             (put (StatusEvent target STATUS_DONE)
                                                (put (RenamedEvent row_path target)
                                                   (st\<lparr>ws_disk := disk'\<rparr>)))))
                               else
                                 Some (put (ProgressEvent (offset + 1))
                                        (put (StatusEvent row_path STATUS_DONE) st))))))))"

text \<open>The loop over the rows, with the test of the stop flag before each item.\<close>

fun run_rows ::
  "'img env \<Rightarrow> AppConfig \<Rightarrow> nat \<Rightarrow> path list \<Rightarrow> 'img worker_state \<Rightarrow> 'img worker_state option" where
  "run_rows env cfg offset [] st = Some st"
| "run_rows env cfg offset (row_path # rows) st =
     (if env_stop env offset then Some st
      else (case process_item env cfg offset row_path st of
              None \<Rightarrow> None
            | Some st' \<Rightarrow> run_rows env cfg (offset + 1) rows st'))"

text \<open>
  \<open>_run_worker\<close> on the paths of the rows and the file system at the start: a new OCR
  client, the loop, and the \<open>done\<close> event.
\<close>

definition run_worker ::
  "'img env \<Rightarrow> AppConfig \<Rightarrow> path list \<Rightarrow> path set \<Rightarrow> 'img worker_state option" where
  "run_worker env cfg rows disk =
     (let st0 = \<lparr>ws_queue = [], ws_disk = disk, ws_http = \<lparr>sent = [], slept = []\<rparr>, ws_procs = [],
                 ws_client = new_BaiduOcrClient (baidu_api_key cfg) (baidu_secret_key cfg) 60 2\<rparr>
      in case run_rows env cfg 0 rows st0 of
           None \<Rightarrow> None
         | Some st \<Rightarrow> Some (put (DoneEvent DONE_MESSAGE) st))"

text \<open>A queue in which no \<open>status\<close> event carries the preview text.\<close>

definition no_preview_status :: "'img event list \<Rightarrow> bool" where
  "no_preview_status q \<longleftrightarrow> (\<forall>p. StatusEvent p STATUS_PREVIEW \<notin> set q)"

section \<open>Properties\<close>

subsection \<open>Evaluation helpers\<close>

lemma replicate_unfold: "replicate n x = (if n = 0 then [] else x # replicate (n - 1) x)"
  by (cases n) simp_all

lemmas str_eval =
  ascii_def py_strip_def py_rstrip_def strip_by_def lstrip_by_def rstrip_by_def is_space_def
  str_int_def str_nat.simps zfill_def replicate_unfold upt_rec

lemmas path_eval = suffix_def stem_def last_dot_def with_name_def candidate_def

subsection \<open>Decimal rendering is injective\<close>

lemma digits_value_str_nat: "digits_value (str_nat n) = n"
proof (induction n rule: str_nat.induct)
  case (1 n)
  show ?case
  proof (cases "n < 10")
    case True
    then show ?thesis by (simp add: str_nat.simps digits_value_def)
  next
    case False
    with 1 have "digits_value (str_nat (n div 10)) = n div 10" by simp
    with False show ?thesis
      by (subst str_nat.simps) (simp add: digits_value_def)
  qed
qed

lemma str_nat_inj: "str_nat m = str_nat n \<Longrightarrow> m = n"
  by (metis digits_value_str_nat)

lemma candidate_inj: "candidate t j = candidate t k \<Longrightarrow> j = k"
proof -
  assume "candidate t j = candidate t k"
  then have "name (candidate t j) = name (candidate t k)" by simp
  then have "str_nat j = str_nat k" by (simp add: candidate_def)
  then show ?thesis by (rule str_nat_inj)
qed

subsection \<open>The suffix loop of \<open>pick_non_conflicting_path\<close>\<close>

lemma find_candidate_first:
  "candidate t k \<notin> fs \<Longrightarrow> c \<le> k \<Longrightarrow> (\<And>j. c \<le> j \<Longrightarrow> j < k \<Longrightarrow> candidate t j \<in> fs)
   \<Longrightarrow> find_candidate fs t c = Some (candidate t k)"
proof (induction "k - c" arbitrary: c)
  case 0
  then have "c = k" by simp
  with 0 show ?case by (subst find_candidate.simps) simp
next
  case (Suc d)
  then have lt: "c < k" by simp
  with Suc.prems have in_fs: "candidate t c \<in> fs" by simp
  have "find_candidate fs t (c + 1) = Some (candidate t k)"
  proof (rule Suc.hyps(1))
    show "d = k - (c + 1)" using Suc.hyps(2) by simp
    show "candidate t k \<notin> fs" by (rule Suc.prems(1))
    show "c + 1 \<le> k" using lt by simp
    show "\<And>j. c + 1 \<le> j \<Longrightarrow> j < k \<Longrightarrow> candidate t j \<in> fs" using Suc.prems(3) by simp
  qed
  with in_fs show ?case by (subst find_candidate.simps) simp
qed

text \<open>A finite file system cannot hold every candidate: the candidates are pairwise distinct.\<close>

lemma free_candidate_exists:
  assumes "finite fs"
  shows "\<exists>k\<ge>c. candidate t k \<notin> fs"
proof (rule ccontr)
  assume "\<not> (\<exists>k\<ge>c. candidate t k \<notin> fs)"
  then have sub: "candidate t ` {c..} \<subseteq> fs" by auto
  have "inj_on (candidate t) {c..}" by (auto simp: inj_on_def dest: candidate_inj)
  moreover have "infinite {c..}" by (simp add: infinite_Ici)
  ultimately have "infinite (candidate t ` {c..})" by (simp add: finite_image_iff)
  with sub assms show False by (meson finite_subset)
qed

lemma find_candidate_total:
  assumes "finite fs"
  shows "\<exists>k\<ge>c. find_candidate fs t c = Some (candidate t k) \<and> candidate t k \<notin> fs
           \<and> (\<forall>j. c \<le> j \<and> j < k \<longrightarrow> candidate t j \<in> fs)"
proof -
  define P where "P k \<longleftrightarrow> c \<le> k \<and> candidate t k \<notin> fs" for k
  from free_candidate_exists [OF assms] have ex: "\<exists>k. P k" by (auto simp: P_def)
  define k where "k = (LEAST k. P k)"
  have Pk: "P k" unfolding k_def using ex by (metis LeastI)
  have least: "\<And>j. j < k \<Longrightarrow> \<not> P j" unfolding k_def by (rule not_less_Least)
  have "find_candidate fs t c = Some (candidate t k)"
  proof (rule find_candidate_first)
    show "candidate t k \<notin> fs" using Pk by (simp add: P_def)
    show "c \<le> k" using Pk by (simp add: P_def)
    show "\<And>j. c \<le> j \<Longrightarrow> j < k \<Longrightarrow> candidate t j \<in> fs" using least by (auto simp: P_def)
  qed
  with Pk least show ?thesis by (auto simp: P_def)
qed

subsection \<open>Claims on \<open>rename.py\<close>\<close>

text \<open>
  C1. The spec's example for \<open>build_target_path\<close>: source \<open>a/b.mp4\<close>, index 7, padding 3,
  title \<open>Hello: World\<close>. The character class of the source also holds the upper-case
  letters and the digits, and the white space is collapsed before the replacement, so the
  code returns \<open>a/007-ello   orld.mp4\<close> (three spaces), not \<open>a/007-Hello World.mp4\<close>.
\<close>

theorem build_target_path_hello_world:
  "build_target_path \<lparr>parent = ascii ''a'', name = ascii ''b.mp4''\<rparr> 7 3 (ascii ''Hello: World'')
     = Inr \<lparr>parent = ascii ''a'', name = ascii ''007-ello   orld.mp4''\<rparr>
   \<and> build_target_path \<lparr>parent = ascii ''a'', name = ascii ''b.mp4''\<rparr> 7 3 (ascii ''Hello: World'')
     \<noteq> Inr \<lparr>parent = ascii ''a'', name = ascii ''007-Hello World.mp4''\<rparr>"
  by (simp add: build_target_path_def sanitize_filename_component_def windows_invalid_char_def
        default_fallback_def Let_def str_eval path_eval)

text \<open>
  C6. Without an \<open>ignore_path\<close>, a target that does not exist is returned unchanged; for a
  target that exists in a finite file system the loop returns, and its result is the
  candidate \<open>stem_k\<close> plus extension with the least counter \<open>k \<ge> 2\<close> that does not exist.
  The function is idempotent: its result does not exist, and resolving the result again
  returns it unchanged.
\<close>

theorem pick_non_conflicting_path_first_free:
  "(target_path \<notin> fs \<longrightarrow> pick_non_conflicting_path fs target_path None = Some target_path) \<and>
   (finite fs \<and> target_path \<in> fs \<longrightarrow>
      (\<exists>k\<ge>2. pick_non_conflicting_path fs target_path None = Some (candidate target_path k)
          \<and> candidate target_path k \<notin> fs
          \<and> (\<forall>j. 2 \<le> j \<and> j < k \<longrightarrow> candidate target_path j \<in> fs))) \<and>
   (finite fs \<longrightarrow>
      (\<exists>r. pick_non_conflicting_path fs target_path None = Some r \<and> r \<notin> fs
          \<and> pick_non_conflicting_path fs r None = Some r))"
proof (intro conjI impI)
  assume "target_path \<notin> fs"
  then show "pick_non_conflicting_path fs target_path None = Some target_path"
    by (simp add: pick_non_conflicting_path_def)
next
  assume "finite fs \<and> target_path \<in> fs"
  then show "\<exists>k\<ge>2. pick_non_conflicting_path fs target_path None = Some (candidate target_path k)
          \<and> candidate target_path k \<notin> fs
          \<and> (\<forall>j. 2 \<le> j \<and> j < k \<longrightarrow> candidate target_path j \<in> fs)"
    using find_candidate_total [of fs 2 target_path]
    by (simp add: pick_non_conflicting_path_def)
next
  assume fin: "finite fs"
  show "\<exists>r. pick_non_conflicting_path fs target_path None = Some r \<and> r \<notin> fs
          \<and> pick_non_conflicting_path fs r None = Some r"
  proof (cases "target_path \<in> fs")
    case False
    then show ?thesis by (simp add: pick_non_conflicting_path_def)
  next
    case True
    from find_candidate_total [OF fin, of 2 target_path] obtain k where
      k: "find_candidate fs target_path 2 = Some (candidate target_path k)"
         "candidate target_path k \<notin> fs"
      by blast
    with True show ?thesis by (simp add: pick_non_conflicting_path_def)
  qed
qed

text \<open>
  The spec's example: with \<open>007-Hello World.mp4\<close> and \<open>007-Hello World_2.mp4\<close> present, the
  result is \<open>007-Hello World_3.mp4\<close>, and resolving that result again returns it unchanged.
\<close>

theorem pick_non_conflicting_path_first_free_witness:
  "(let t = \<lparr>parent = ascii ''a'', name = ascii ''007-Hello World.mp4''\<rparr>;
        t2 = \<lparr>parent = ascii ''a'', name = ascii ''007-Hello World_2.mp4''\<rparr>;
        t3 = \<lparr>parent = ascii ''a'', name = ascii ''007-Hello World_3.mp4''\<rparr>
    in finite {t, t2} \<and> t \<in> {t, t2} \<and> t3 \<notin> {t, t2}
       \<and> (\<exists>k\<ge>2. pick_non_conflicting_path {t, t2} t None = Some (candidate t k)
             \<and> candidate t k \<notin> {t, t2})
       \<and> pick_non_conflicting_path {t, t2} t None = Some t3
       \<and> pick_non_conflicting_path {t, t2} t3 None = Some t3)"
proof -
  define t where "t = \<lparr>parent = ascii ''a'', name = ascii ''007-Hello World.mp4''\<rparr>"
  define t2 where "t2 = \<lparr>parent = ascii ''a'', name = ascii ''007-Hello World_2.mp4''\<rparr>"
  define t3 where "t3 = \<lparr>parent = ascii ''a'', name = ascii ''007-Hello World_3.mp4''\<rparr>"
  have c2: "candidate t 2 = t2" and c3: "candidate t 3 = t3"
    by (simp_all add: t_def t2_def t3_def str_eval path_eval)
  have ne: "t3 \<noteq> t" "t3 \<noteq> t2" "t2 \<noteq> t"
    by (simp_all add: t_def t2_def t3_def ascii_def)
  have fin: "finite {t, t2} \<and> t \<in> {t, t2}" by simp
  from pick_non_conflicting_path_first_free [of t "{t, t2}"] fin
  obtain k where k: "2 \<le> k" "pick_non_conflicting_path {t, t2} t None = Some (candidate t k)"
      "candidate t k \<notin> {t, t2}" "\<forall>j. 2 \<le> j \<and> j < k \<longrightarrow> candidate t j \<in> {t, t2}"
    by blast
  have "k = 3"
  proof -
    from k(1,3) c2 have "3 \<le> k" by (cases "k = 2") auto
    moreover have "\<not> 3 < k"
    proof
      assume "3 < k"
      with k(4) have "candidate t 3 \<in> {t, t2}" by simp
      with c3 ne show False by simp
    qed
    ultimately show ?thesis by simp
  qed
  with k c3 have res: "pick_non_conflicting_path {t, t2} t None = Some t3" by simp
  have idem: "pick_non_conflicting_path {t, t2} t3 None = Some t3"
    using pick_non_conflicting_path_first_free [of t3 "{t, t2}"] ne by simp
  have "\<exists>k\<ge>2. pick_non_conflicting_path {t, t2} t None = Some (candidate t k)
             \<and> candidate t k \<notin> {t, t2}"
    using k by blast
  with fin ne res idem show ?thesis
    unfolding Let_def t_def [symmetric] t2_def [symmetric] t3_def [symmetric] by simp
qed

text \<open>
  C10. When the target equals \<open>ignore_path\<close> the target is returned as it is, whatever the
  file system holds (also when the target exists, and also in a file system on which the
  suffix loop would not return): the result does not depend on the file system.
\<close>

theorem pick_non_conflicting_path_ignore:
  "pick_non_conflicting_path fs target_path (Some target_path) = Some target_path
   \<and> pick_non_conflicting_path fs target_path (Some target_path)
       = pick_non_conflicting_path fs' target_path (Some target_path)"
  by (simp add: pick_non_conflicting_path_def)

subsection \<open>Claims on the scanner\<close>

lemma re_split_no_backslash: "92 \<notin> set s \<Longrightarrow> re_split_backslash_d cur s = [cur @ s]"
  by (induction s arbitrary: cur) auto

text \<open>
  A name with no backslash is never split: its key is the whole lower-cased name (or one
  number when the whole name is digits), so digit runs inside a name are compared as text.
\<close>

lemma natural_key_no_backslash:
  "92 \<notin> set nm \<Longrightarrow>
     natural_key nm = [if isdigit nm then KInt (digits_value nm) else KStr (py_lower nm)]"
  by (simp add: natural_key_def re_split_no_backslash)

lemma suffix_mp4:
  "suffix (ascii ''v1.mp4'') = ascii ''.mp4''"
  "suffix (ascii ''v2.mp4'') = ascii ''.mp4''"
  "suffix (ascii ''v10.mp4'') = ascii ''.mp4''"
  by (simp_all add: ascii_def path_eval upt_rec)

lemma mp4_in_VIDEO_EXTS: "py_lower (ascii ''.mp4'') \<in> VIDEO_EXTS"
  by (simp add: ascii_def py_lower_def VIDEO_EXTS_def)

text \<open>
  C2. The spec's example for the scanner: a directory listing \<open>v2.mp4\<close>, \<open>v10.mp4\<close>,
  \<open>v1.mp4\<close>. The split pattern of the source matches a backslash followed by letters
  \<open>d\<close>, never a digit run, so the three names are compared as text and the code returns
  \<open>v1\<close>, \<open>v10\<close>, \<open>v2\<close>, not \<open>v1\<close>, \<open>v2\<close>, \<open>v10\<close>.
\<close>

theorem scan_videos_v1_v10_v2:
  "scan_videos []
     [(\<lparr>parent = ascii ''d'', name = ascii ''v2.mp4''\<rparr>, True),
      (\<lparr>parent = ascii ''d'', name = ascii ''v10.mp4''\<rparr>, True),
      (\<lparr>parent = ascii ''d'', name = ascii ''v1.mp4''\<rparr>, True)] False
   = Inr [\<lparr>parent = ascii ''d'', name = ascii ''v1.mp4''\<rparr>,
          \<lparr>parent = ascii ''d'', name = ascii ''v10.mp4''\<rparr>,
          \<lparr>parent = ascii ''d'', name = ascii ''v2.mp4''\<rparr>]"
  by (simp add: scan_videos_def Let_def suffix_mp4 mp4_in_VIDEO_EXTS)
     (simp add: ascii_def natural_key_def isdigit_def py_lower_def)

subsection \<open>Claims on the title post-processing\<close>

lemma dropWhile_mid:
  "m \<noteq> [] \<Longrightarrow> \<not> P (hd m) \<Longrightarrow> dropWhile P (a @ m @ b) = dropWhile P a @ m @ b"
  by (induction a) (auto simp: neq_Nil_conv)

lemma rstrip_by_mid:
  "m \<noteq> [] \<Longrightarrow> \<not> P (last m) \<Longrightarrow> rstrip_by P (a @ m @ b) = a @ m @ rstrip_by P b"
  using dropWhile_mid [of "rev m" P "rev b" "rev a"]
  by (simp add: rstrip_by_def hd_rev)

lemma strip_by_mid:
  "m \<noteq> [] \<Longrightarrow> \<not> P (hd m) \<Longrightarrow> \<not> P (last m) \<Longrightarrow>
     strip_by P (a @ m @ b) = dropWhile P a @ m @ rstrip_by P b"
  by (simp add: strip_by_def lstrip_by_def dropWhile_mid rstrip_by_mid)

lemma dropWhile_all: "\<forall>c\<in>set a. P c \<Longrightarrow> dropWhile P a = []"
  by simp

lemma rstrip_by_all: "\<forall>c\<in>set a. P c \<Longrightarrow> rstrip_by P a = []"
  by (simp add: rstrip_by_def dropWhile_eq_Nil_conv)

lemma strip_by_all: "\<forall>c\<in>set a. P c \<Longrightarrow> strip_by P a = []"
  by (simp add: strip_by_def lstrip_by_def rstrip_by_def dropWhile_all)

lemma strip_by_core:
  "m \<noteq> [] \<Longrightarrow> \<not> P (hd m) \<Longrightarrow> \<not> P (last m) \<Longrightarrow> \<forall>c\<in>set a. P c \<Longrightarrow> \<forall>c\<in>set b. P c \<Longrightarrow>
     strip_by P (a @ m @ b) = m"
  by (simp add: strip_by_mid rstrip_by_all)

lemma set_rstrip_by: "set (rstrip_by P s) \<subseteq> set s"
  using set_dropWhileD [of _ P "rev s"] by (auto simp: rstrip_by_def)

lemma splitlines_aux_line:
  "\<forall>c\<in>set line. \<not> is_linebreak c \<Longrightarrow> line \<noteq> [] \<Longrightarrow>
     splitlines_aux cur after_cr (line @ rest) = splitlines_aux (cur @ line) False rest"
proof (induction line arbitrary: cur after_cr)
  case Nil
  then show ?case by simp
next
  case (Cons c line)
  then have nb: "\<not> is_linebreak c" by simp
  then have "c \<noteq> 10" by (auto simp: is_linebreak_def)
  show ?case
  proof (cases "line = []")
    case True
    with nb \<open>c \<noteq> 10\<close> show ?thesis by simp
  next
    case False
    with Cons have "splitlines_aux (cur @ [c]) False (line @ rest) = splitlines_aux ((cur @ [c]) @ line) False rest"
      by simp
    with nb \<open>c \<noteq> 10\<close> show ?thesis by simp
  qed
qed

lemma splitlines_aux_done:
  "line \<noteq> [] \<Longrightarrow> rest = [] \<or> is_linebreak (hd rest) \<Longrightarrow>
     \<exists>more. splitlines_aux (cur @ line) False rest = (cur @ line) # more"
  by (cases rest) auto

lemma first_stripped_skip:
  assumes ws: "\<forall>c\<in>set ws. is_space c" and cur: "\<forall>c\<in>set cur. is_space c"
      and line: "\<forall>c\<in>set line. \<not> is_linebreak c" "line \<noteq> []"
      and ne: "\<And>w. \<forall>c\<in>set w. is_space c \<Longrightarrow> py_strip (w @ line) \<noteq> []"
      and rest: "rest = [] \<or> is_linebreak (hd rest)"
  shows "\<exists>w. (\<forall>c\<in>set w. is_space c) \<and>
           first_stripped (splitlines_aux cur after_cr (ws @ line @ rest)) = py_strip (w @ line)"
  using ws cur
proof (induction ws arbitrary: cur after_cr)
  case Nil
  from splitlines_aux_done [OF line(2) rest, of cur]
  obtain more where "splitlines_aux (cur @ line) False rest = (cur @ line) # more" by blast
  with line have "splitlines_aux cur after_cr (line @ rest) = (cur @ line) # more"
    by (simp add: splitlines_aux_line)
  with ne [OF Nil.prems(2)] have
    "first_stripped (splitlines_aux cur after_cr ([] @ line @ rest)) = py_strip (cur @ line)"
    by (simp add: Let_def)
  with Nil.prems(2) show ?case by blast
next
  case (Cons c ws)
  have blank: "py_strip cur = []" using Cons.prems(2) by (simp add: py_strip_def strip_by_all)
  consider (crlf) "after_cr \<and> c = 10" | (brk) "\<not> (after_cr \<and> c = 10)" "is_linebreak c"
    | (plain) "\<not> (after_cr \<and> c = 10)" "\<not> is_linebreak c" by blast
  then show ?case
  proof cases
    case crlf
    have "\<exists>w. (\<forall>c\<in>set w. is_space c) \<and>
           first_stripped (splitlines_aux [] False (ws @ line @ rest)) = py_strip (w @ line)"
      by (rule Cons.IH) (use Cons.prems in simp_all)
    with crlf show ?thesis by simp
  next
    case brk
    have "\<exists>w. (\<forall>c\<in>set w. is_space c) \<and>
           first_stripped (splitlines_aux [] (c = 13) (ws @ line @ rest)) = py_strip (w @ line)"
      by (rule Cons.IH) (use Cons.prems in simp_all)
    with brk blank show ?thesis by (cases after_cr) (simp_all add: Let_def)
  next
    case plain
    have "\<exists>w. (\<forall>c\<in>set w. is_space c) \<and>
           first_stripped (splitlines_aux (cur @ [c]) False (ws @ line @ rest)) = py_strip (w @ line)"
      by (rule Cons.IH) (use Cons.prems in simp_all)
    with plain show ?thesis by (cases after_cr) simp_all
  qed
qed

lemma space_is_quote_or_space: "is_space c \<Longrightarrow> is_quote_or_space c"
  by (simp add: is_quote_or_space_def)

lemma space_is_label_sep: "is_space c \<Longrightarrow> is_label_sep c"
  by (simp add: is_label_sep_def)

lemma title_word_shape:
  "is_title_word lab \<Longrightarrow> length lab = 5 \<and> (hd lab = 116 \<or> hd lab = 84)"
  by (cases lab rule: is_title_word.cases) simp_all

lemma after_label_found:
  "lab = [26631, 39064] \<or> is_title_word lab \<Longrightarrow> after_label (lab @ r) = Some r"
proof (erule disjE)
  assume "lab = [26631, 39064]"
  then show ?thesis by (simp add: after_label_def)
next
  assume t: "is_title_word lab"
  from title_word_shape [OF t] have len: "length lab = 5" and h: "hd lab \<noteq> 26631" by auto
  from len have "lab \<noteq> []" by auto
  with h have "take 2 (lab @ r) \<noteq> [26631, 39064]"
    by (cases lab) auto
  with len t show ?thesis by (simp add: after_label_def)
qed

lemma label_head:
  "lab = [26631, 39064] \<or> is_title_word lab \<Longrightarrow> lab \<noteq> [] \<and> \<not> is_quote_or_space (hd lab)"
proof (erule disjE)
  assume "lab = [26631, 39064]"
  then show ?thesis by (simp add: is_quote_or_space_def is_space_def)
next
  assume t: "is_title_word lab"
  from title_word_shape [OF t] have len: "length lab = 5" and h: "hd lab = 116 \<or> hd lab = 84" by auto
  from len have "lab \<noteq> []" by auto
  moreover from h have "\<not> is_quote_or_space (hd lab)"
    by (auto simp: is_quote_or_space_def is_space_def)
  ultimately show ?thesis by simp
qed

lemma sub_label_found:
  assumes "lab = [26631, 39064] \<or> is_title_word lab" "sep \<noteq> []" "\<forall>c\<in>set sep. is_label_sep c"
      and "body \<noteq> []" "\<not> is_label_sep (hd body)"
  shows "sub_label (lab @ sep @ body) = body"
proof -
  from assms(2) obtain s ss where sep: "sep = s # ss" by (cases sep) auto
  from assms(4) obtain b bs where body: "body = b # bs" by (cases body) auto
  have "dropWhile is_label_sep (sep @ body) = dropWhile is_label_sep body"
    using assms(3) by (simp add: dropWhile_append)
  with body assms(5) have "dropWhile is_label_sep (sep @ body) = body" by simp
  with after_label_found [OF assms(1), of "sep @ body"] sep assms(3) show ?thesis
    by (simp add: sub_label_def)
qed

lemma not_quote_not_space: "\<not> is_quote_or_space c \<Longrightarrow> \<not> is_space c"
  by (auto simp: is_quote_or_space_def)

lemma py_strip_fixed: "m \<noteq> [] \<Longrightarrow> \<not> is_space (hd m) \<Longrightarrow> \<not> is_space (last m) \<Longrightarrow> py_strip m = m"
  using strip_by_core [of m is_space "[]" "[]"] by (simp add: py_strip_def)

lemma first_line_cleanup:
  assumes ws: "\<forall>c\<in>set ws. is_space c"
      and q1: "\<forall>c\<in>set q1. is_quote_or_space c \<and> \<not> is_linebreak c"
      and q2: "\<forall>c\<in>set q2. is_quote_or_space c \<and> \<not> is_linebreak c"
      and m: "m \<noteq> []" "\<not> is_quote_or_space (hd m)" "\<not> is_quote_or_space (last m)"
             "\<forall>c\<in>set m. \<not> is_linebreak c"
      and rest: "rest = [] \<or> is_linebreak (hd rest)"
  shows "py_strip (sub_quotes (first_non_empty_line (ws @ q1 @ m @ q2 @ rest))) = m"
proof -
  define line where "line = q1 @ m @ q2"
  have hd_sp: "\<not> is_space (hd m)" and last_sp: "\<not> is_space (last m)"
    using m(2,3) by (simp_all add: not_quote_not_space)
  have strip_line: "py_strip (w @ line) = dropWhile is_space (w @ q1) @ m @ rstrip_by is_space q2" for w
    using strip_by_mid [OF m(1) hd_sp last_sp, of "w @ q1" q2]
    by (simp add: py_strip_def line_def)
  have ne: "py_strip (w @ line) \<noteq> []" for w
    using m(1) by (simp add: strip_line)
  have nb: "\<forall>c\<in>set line. \<not> is_linebreak c"
    using q1 q2 m(4) by (auto simp: line_def)
  have line_ne: "line \<noteq> []" using m(1) by (simp add: line_def)
  from first_stripped_skip [OF ws _ nb line_ne ne rest, of "[]" False]
  obtain w where w: "\<forall>c\<in>set w. is_space c"
    and first: "first_non_empty_line (ws @ line @ rest) = py_strip (w @ line)"
    by (auto simp: first_non_empty_line_def splitlines_def)
  have left: "\<forall>c\<in>set (dropWhile is_space (w @ q1)). is_quote_or_space c"
  proof
    fix c assume "c \<in> set (dropWhile is_space (w @ q1))"
    then have "c \<in> set (w @ q1)" by (rule set_dropWhileD)
    with w q1 show "is_quote_or_space c" by (auto simp: space_is_quote_or_space)
  qed
  have right: "\<forall>c\<in>set (rstrip_by is_space q2). is_quote_or_space c"
    using set_rstrip_by [of is_space q2] q2 by auto
  have "sub_quotes (py_strip (w @ line)) = m"
    unfolding sub_quotes_def strip_line
    by (rule strip_by_core [OF m(1,2,3) left right])
  with first have "sub_quotes (first_non_empty_line (ws @ line @ rest)) = m" by simp
  then show ?thesis using py_strip_fixed [OF m(1) hd_sp last_sp] by (simp add: line_def)
qed

text \<open>
  C8. The content of the reply is any white space (blank lines included), then on one line:
  a run of quote characters and spaces, a label (the Chinese label or the word \<open>title\<close> in
  any case), one or more of colon, full-width colon and white space, the body, and a run
  of quote characters and spaces; then the end of the text or a line break and anything.
  The extracted title is the body. Without a label the title is the body as well.
\<close>

theorem title_of_content_cleanup:
  assumes ws: "\<forall>c\<in>set ws. is_space c"
      and q1: "\<forall>c\<in>set q1. is_quote_or_space c \<and> \<not> is_linebreak c"
      and q2: "\<forall>c\<in>set q2. is_quote_or_space c \<and> \<not> is_linebreak c"
      and lab: "lab = [26631, 39064] \<or> is_title_word lab"
      and sep: "sep \<noteq> []" "\<forall>c\<in>set sep. is_label_sep c \<and> \<not> is_linebreak c"
      and body: "body \<noteq> []" "\<not> is_label_sep (hd body)" "\<not> is_quote_or_space (last body)"
                "\<forall>c\<in>set body. \<not> is_linebreak c"
      and rest: "rest = [] \<or> is_linebreak (hd rest)"
  shows "title_of_content (ws @ q1 @ lab @ sep @ body @ q2 @ rest) = body
       \<and> (\<not> is_quote_or_space (hd body) \<and> sub_label body = body
            \<longrightarrow> title_of_content (ws @ q1 @ body @ q2 @ rest) = body)"
proof
  define m where "m = lab @ sep @ body"
  from label_head [OF lab] have lab_ne: "lab \<noteq> []" and lab_hd: "\<not> is_quote_or_space (hd lab)" by auto
  have hd_sp: "\<not> is_space (hd body)" using body(2) space_is_label_sep by blast
  have last_sp: "\<not> is_space (last body)" using body(3) by (simp add: not_quote_not_space)
  have lab_nb: "\<forall>c\<in>set lab. \<not> is_linebreak c"
  proof (rule disjE [OF lab])
    assume "lab = [26631, 39064]"
    then show ?thesis by (simp add: is_linebreak_def)
  next
    assume t: "is_title_word lab"
    then obtain a b c d e where l: "lab = [a, b, c, d, e]"
      by (cases lab rule: is_title_word.cases) auto
    from t l have A: "a = 116 \<or> a = 84" and B: "b = 105 \<or> b = 73 \<or> b = 304 \<or> b = 305"
      and C: "c = 116 \<or> c = 84" and D: "d = 108 \<or> d = 76" and E: "e = 101 \<or> e = 69"
      by simp_all
    from A have "\<not> is_linebreak a" by (auto simp: is_linebreak_def)
    moreover from B have "\<not> is_linebreak b" by (auto simp: is_linebreak_def)
    moreover from C have "\<not> is_linebreak c" by (auto simp: is_linebreak_def)
    moreover from D have "\<not> is_linebreak d" by (auto simp: is_linebreak_def)
    moreover from E have "\<not> is_linebreak e" by (auto simp: is_linebreak_def)
    ultimately show ?thesis unfolding l by simp
  qed
  have m1: "m \<noteq> []" using lab_ne by (simp add: m_def)
  have m2: "\<not> is_quote_or_space (hd m)" using lab_ne lab_hd by (simp add: m_def)
  have m3: "\<not> is_quote_or_space (last m)" using body(1,3) by (simp add: m_def)
  have m4: "\<forall>c\<in>set m. \<not> is_linebreak c" using lab_nb sep(2) body(4) by (auto simp: m_def)
  from first_line_cleanup [OF ws q1 q2 m1 m2 m3 m4 rest]
  have "py_strip (sub_quotes (first_non_empty_line (ws @ q1 @ lab @ sep @ body @ q2 @ rest))) = m"
    by (simp add: m_def)
  moreover have "sub_label m = body"
    unfolding m_def using sub_label_found [OF lab sep(1) _ body(1,2)] sep(2) by simp
  moreover have "py_strip body = body" by (rule py_strip_fixed [OF body(1) hd_sp last_sp])
  ultimately show "title_of_content (ws @ q1 @ lab @ sep @ body @ q2 @ rest) = body"
    by (simp add: title_of_content_def Let_def)
  show "\<not> is_quote_or_space (hd body) \<and> sub_label body = body
            \<longrightarrow> title_of_content (ws @ q1 @ body @ q2 @ rest) = body"
  proof
    assume a: "\<not> is_quote_or_space (hd body) \<and> sub_label body = body"
    from first_line_cleanup [OF ws q1 q2 body(1) _ body(3,4) rest] a
    have "py_strip (sub_quotes (first_non_empty_line (ws @ q1 @ body @ q2 @ rest))) = body"
      by simp
    with a \<open>py_strip body = body\<close> show "title_of_content (ws @ q1 @ body @ q2 @ rest) = body"
      by (simp add: title_of_content_def Let_def)
  qed
qed

text \<open>
  The spec's example: the content is a double quote, U+6807 U+9898, the full-width colon,
  the six characters of the title and a double quote; the title is the six characters.
\<close>

theorem title_of_content_cleanup_witness:
  "title_of_content ([34] @ [26631, 39064] @ [65306] @ [20170, 22825, 22825, 27668, 30495, 22909] @ [34])
     = [20170, 22825, 22825, 27668, 30495, 22909]"
proof -
  have "title_of_content ([] @ [34] @ [26631, 39064] @ [65306]
          @ [20170, 22825, 22825, 27668, 30495, 22909] @ [34] @ [])
        = [20170, 22825, 22825, 27668, 30495, 22909]"
    using title_of_content_cleanup [of "[]" "[34]" "[34]" "[26631, 39064]" "[65306]"
            "[20170, 22825, 22825, 27668, 30495, 22909]" "[]"]
    by (simp add: is_quote_or_space_def is_linebreak_def is_label_sep_def is_space_def)
  then show ?thesis by simp
qed

subsection \<open>Claims on the retry loop\<close>

lemma post_with_retries_success:
  "attempt + k < retries \<Longrightarrow>
   (\<And>i. i < k \<Longrightarrow> net (length (sent w) + i) = RequestException (c i)) \<Longrightarrow>
   net (length (sent w) + k) = Json p \<Longrightarrow>
   post_with_retries net req retries mk attempt last_exc w
     = (Inr p, w\<lparr>sent := sent w @ replicate (Suc k) req,
                  slept := slept w @ map (\<lambda>i. 2 ^ (attempt + i)) [0..<k]\<rparr>)"
proof (induction k arbitrary: attempt last_exc w c)
  case 0
  then show ?case by (subst post_with_retries.simps) simp
next
  case (Suc k)
  let ?w1 = "w\<lparr>sent := sent w @ [req], slept := slept w @ [2 ^ attempt]\<rparr>"
  from Suc.prems(2) [of 0] have first: "net (length (sent w)) = RequestException (c 0)" by simp
  have ih: "post_with_retries net req retries mk (attempt + 1) (Some (c 0)) ?w1
      = (Inr p, ?w1\<lparr>sent := sent ?w1 @ replicate (Suc k) req,
                     slept := slept ?w1 @ map (\<lambda>i. 2 ^ (attempt + 1 + i)) [0..<k]\<rparr>)"
  proof (rule Suc.IH [where c = "\<lambda>i. c (Suc i)"])
    show "attempt + 1 + k < retries" using Suc.prems(1) by simp
    show "net (length (sent ?w1) + i) = RequestException (c (Suc i))" if "i < k" for i
      using Suc.prems(2) [of "Suc i"] that by simp
    show "net (length (sent ?w1) + k) = Json p" using Suc.prems(3) by simp
  qed
  have m: "map (\<lambda>i. 2 ^ (attempt + i)) [0..<Suc k]
      = (2 ^ attempt :: nat) # map (\<lambda>i. 2 ^ (attempt + 1 + i)) [0..<k]"
    by (simp add: upt_conv_Cons map_Suc_upt [symmetric] del: upt_Suc)
  from Suc.prems(1) have "\<not> retries \<le> attempt" "\<not> retries \<le> attempt + 1" by simp_all
  with first ih m show ?case
    by (subst post_with_retries.simps) (simp add: replicate_app_Cons_same del: upt_Suc)
qed


lemma post_with_retries_all_fail:
  "attempt + k + 1 = retries \<Longrightarrow>
   (\<And>i. i \<le> k \<Longrightarrow> net (length (sent w) + i) = RequestException (c i)) \<Longrightarrow>
   post_with_retries net req retries mk attempt last_exc w
     = (Inl (mk (TransportFailed (c k))),
        w\<lparr>sent := sent w @ replicate (Suc k) req,
          slept := slept w @ map (\<lambda>i. 2 ^ (attempt + i)) [0..<k]\<rparr>)"
proof (induction k arbitrary: attempt last_exc w c)
  case 0
  from 0(2) [of 0] have "net (length (sent w)) = RequestException (c 0)" by simp
  with 0(1) show ?case by (subst post_with_retries.simps) auto
next
  case (Suc k)
  let ?w1 = "w\<lparr>sent := sent w @ [req], slept := slept w @ [2 ^ attempt]\<rparr>"
  from Suc.prems(2) [of 0] have first: "net (length (sent w)) = RequestException (c 0)" by simp
  have ih: "post_with_retries net req retries mk (attempt + 1) (Some (c 0)) ?w1
      = (Inl (mk (TransportFailed (c (Suc k)))),
         ?w1\<lparr>sent := sent ?w1 @ replicate (Suc k) req,
              slept := slept ?w1 @ map (\<lambda>i. 2 ^ (attempt + 1 + i)) [0..<k]\<rparr>)"
  proof (rule Suc.IH [where c = "\<lambda>i. c (Suc i)"])
    show "attempt + 1 + k + 1 = retries" using Suc.prems(1) by simp
    show "net (length (sent ?w1) + i) = RequestException (c (Suc i))" if "i \<le> k" for i
      using Suc.prems(2) [of "Suc i"] that by simp
  qed
  have m: "map (\<lambda>i. 2 ^ (attempt + i)) [0..<Suc k]
      = (2 ^ attempt :: nat) # map (\<lambda>i. 2 ^ (attempt + 1 + i)) [0..<k]"
    by (simp add: upt_conv_Cons map_Suc_upt [symmetric] del: upt_Suc)
  from Suc.prems(1) have "\<not> retries \<le> attempt" "\<not> retries \<le> attempt + 1" by simp_all
  with first ih m show ?case
    by (subst post_with_retries.simps) (simp add: replicate_app_Cons_same del: upt_Suc)
qed

lemma loop_success:
  assumes "1 \<le> r" "\<forall>i<r - 1. net (length (sent w) + i) = RequestException (c i)"
    "net (length (sent w) + (r - 1)) = Json p"
  shows "post_with_retries net req r mk 0 None w = (Inr p, backoff_world w req r)"
  using post_with_retries_success [of 0 "r - 1" r net w c p req mk None] assms
  by (simp add: backoff_world_def)

lemma loop_fail:
  assumes "1 \<le> r" "\<forall>i<r - 1. net (length (sent w) + i) = RequestException (c i)"
    "net (length (sent w) + (r - 1)) = RequestException (c (r - 1))"
  shows "post_with_retries net req r mk 0 None w = (Inl (mk (TransportFailed (c (r - 1)))), backoff_world w req r)"
proof -
  have "net (length (sent w) + i) = RequestException (c i)" if "i \<le> r - 1" for i
    using assms(2,3) that by (cases "i = r - 1") auto
  with post_with_retries_all_fail [of 0 "r - 1" r net w c req mk None] assms(1)
  show ?thesis by (simp add: backoff_world_def)
qed

text \<open>
  C4. Let \<open>r \<ge> 1\<close> be the number of attempts and let the first \<open>r - 1\<close> requests end in a
  \<open>RequestException\<close>. If request \<open>r\<close> gives a payload, the loop returns it; if request
  \<open>r\<close> ends in a \<open>RequestException\<close> too, the loop raises the module's error with that last
  exception as its cause. In both cases \<open>r\<close> requests were sent and the sleeps between
  them were 1, 2, 4, ... seconds (\<open>r - 1\<close> of them, none after the last attempt). The same
  is stated for \<open>extract_title_sentence\<close> (\<open>DeepSeekError\<close>) and for \<open>_get_access_token\<close>
  (\<open>BaiduOcrError\<close>) on arguments that pass their first checks.
\<close>

theorem retry_backoff:
  assumes r: "1 \<le> r"
      and fails: "\<forall>i<r - 1. net (length (sent w) + i) = RequestException (c i)"
  shows "(net (length (sent w) + (r - 1)) = Json p \<longrightarrow>
            post_with_retries net req r mk 0 None w = (Inr p, backoff_world w req r))
       \<and> (net (length (sent w) + (r - 1)) = RequestException (c (r - 1)) \<longrightarrow>
            post_with_retries net req r mk 0 None w
              = (Inl (mk (TransportFailed (c (r - 1)))), backoff_world w req r))
       \<and> (py_strip api_key \<noteq> [] \<and> py_strip ocr_text \<noteq> [] \<and> py_strip system_prompt \<noteq> []
            \<and> py_strip user_prompt_template \<noteq> [] \<and> nat (max 1 retries) = r \<longrightarrow>
           (\<exists>req.
              (net (length (sent w) + (r - 1)) = Json p \<and> content p = Some content_text \<longrightarrow>
                 extract_title_sentence net fmt api_key base_url model ocr_text system_prompt
                     user_prompt_template timeout_s retries w
                   = (Inr (title_of_content content_text), backoff_world w req r))
            \<and> (net (length (sent w) + (r - 1)) = RequestException (c (r - 1)) \<longrightarrow>
                 extract_title_sentence net fmt api_key base_url model ocr_text system_prompt
                     user_prompt_template timeout_s retries w
                   = (Inl (DeepSeekError RequestFailed (FromRequestException (c (r - 1)))),
                      backoff_world w req r))))
       \<and> (\<not> (token (token_cache self) \<noteq> [] \<and> now < expires_at_epoch (token_cache self))
            \<and> client_api_key self \<noteq> [] \<and> client_secret_key self \<noteq> [] \<and> client_retries self = r \<longrightarrow>
           (\<exists>req.
              (net (length (sent w) + (r - 1)) = Json p \<and> access_token p \<noteq> [] \<and> expires_in p = Inr ttl \<longrightarrow>
                 fst (get_access_token net now self w) = Inr (access_token p)
                 \<and> snd (snd (get_access_token net now self w)) = backoff_world w req r)
            \<and> (net (length (sent w) + (r - 1)) = RequestException (c (r - 1)) \<longrightarrow>
                 get_access_token net now self w
                   = (Inl (BaiduOcrError TokenRequestFailed (FromRequestException (c (r - 1)))),
                      self, backoff_world w req r))))"
proof (intro conjI impI)
  show "post_with_retries net req r mk 0 None w = (Inr p, backoff_world w req r)"
    if "net (length (sent w) + (r - 1)) = Json p"
    using loop_success [OF r fails that] .
  show "post_with_retries net req r mk 0 None w
      = (Inl (mk (TransportFailed (c (r - 1)))), backoff_world w req r)"
    if "net (length (sent w) + (r - 1)) = RequestException (c (r - 1))"
    using loop_fail [OF r fails that] .
next
  assume a: "py_strip api_key \<noteq> [] \<and> py_strip ocr_text \<noteq> [] \<and> py_strip system_prompt \<noteq> []
            \<and> py_strip user_prompt_template \<noteq> [] \<and> nat (max 1 retries) = r"
  show "\<exists>req.
              (net (length (sent w) + (r - 1)) = Json p \<and> content p = Some content_text \<longrightarrow>
                 extract_title_sentence net fmt api_key base_url model ocr_text system_prompt
                     user_prompt_template timeout_s retries w
                   = (Inr (title_of_content content_text), backoff_world w req r))
            \<and> (net (length (sent w) + (r - 1)) = RequestException (c (r - 1)) \<longrightarrow>
                 extract_title_sentence net fmt api_key base_url model ocr_text system_prompt
                     user_prompt_template timeout_s retries w
                   = (Inl (DeepSeekError RequestFailed (FromRequestException (c (r - 1)))),
                      backoff_world w req r))"
    using a loop_success [OF r fails, where mk = deepseek_error] loop_fail [OF r fails, where mk = deepseek_error]
    by (auto simp: extract_title_sentence_def Let_def deepseek_error_def)
next
  assume a: "\<not> (token (token_cache self) \<noteq> [] \<and> now < expires_at_epoch (token_cache self))
            \<and> client_api_key self \<noteq> [] \<and> client_secret_key self \<noteq> [] \<and> client_retries self = r"
  show "\<exists>req.
              (net (length (sent w) + (r - 1)) = Json p \<and> access_token p \<noteq> [] \<and> expires_in p = Inr ttl \<longrightarrow>
                 fst (get_access_token net now self w) = Inr (access_token p)
                 \<and> snd (snd (get_access_token net now self w)) = backoff_world w req r)
            \<and> (net (length (sent w) + (r - 1)) = RequestException (c (r - 1)) \<longrightarrow>
                 get_access_token net now self w
                   = (Inl (BaiduOcrError TokenRequestFailed (FromRequestException (c (r - 1)))),
                      self, backoff_world w req r))"
    using a loop_success [OF r fails, where mk = baidu_token_error] loop_fail [OF r fails, where mk = baidu_token_error]
    by (auto simp: get_access_token_def Let_def baidu_token_error_def)
qed


text \<open>Three attempts: two failures and a payload, and three failures (cause: the third).\<close>

theorem retry_backoff_witness:
  "(let w0 = \<lparr>sent = [], slept = []\<rparr>;
        p0 = \<lparr>access_token = ascii ''tok'', expires_in = Inr 3600, has_error_code = False,
               words_result = [], content = Some (ascii ''Title: abc'')\<rparr>;
        net_ok = (\<lambda>i. if i < 2 then RequestException i else Json p0);
        self = new_BaiduOcrClient (ascii ''id'') (ascii ''secret'') 60 3
    in fst (extract_title_sentence net_ok (\<lambda>t x. None) (ascii ''key'') [] [] (ascii ''ocr'') (ascii ''sys'')
              (ascii ''user'') 60 3 w0) = Inr (ascii ''abc'')
       \<and> slept (snd (extract_title_sentence net_ok (\<lambda>t x. None) (ascii ''key'') [] [] (ascii ''ocr'')
              (ascii ''sys'') (ascii ''user'') 60 3 w0)) = [1, 2]
       \<and> fst (extract_title_sentence RequestException (\<lambda>t x. None) (ascii ''key'') [] [] (ascii ''ocr'')
              (ascii ''sys'') (ascii ''user'') 60 3 w0)
           = Inl (DeepSeekError RequestFailed (FromRequestException 2))
       \<and> slept (snd (extract_title_sentence RequestException (\<lambda>t x. None) (ascii ''key'') [] []
              (ascii ''ocr'') (ascii ''sys'') (ascii ''user'') 60 3 w0)) = [1, 2]
       \<and> fst (get_access_token net_ok 1000 self w0) = Inr (ascii ''tok'')
       \<and> slept (snd (snd (get_access_token net_ok 1000 self w0))) = [1, 2]
       \<and> fst (get_access_token RequestException 1000 self w0)
           = Inl (BaiduOcrError TokenRequestFailed (FromRequestException 2)))"
proof -
  define w0 where "w0 = \<lparr>sent = [], slept = []\<rparr>"
  define p0 where "p0 = \<lparr>access_token = ascii ''tok'', expires_in = Inr 3600, has_error_code = False,
               words_result = [], content = Some (ascii ''Title: abc'')\<rparr>"
  define net_ok where "net_ok = (\<lambda>i::nat. if i < 2 then RequestException i else Json p0)"
  define self where "self = new_BaiduOcrClient (ascii ''id'') (ascii ''secret'') 60 3"
  have strips: "py_strip (ascii ''key'') \<noteq> []" "py_strip (ascii ''ocr'') \<noteq> []"
    "py_strip (ascii ''sys'') \<noteq> []" "py_strip (ascii ''user'') \<noteq> []"
    by (simp_all add: str_eval)
  have self: "\<not> (token (token_cache self) \<noteq> [] \<and> 1000 < expires_at_epoch (token_cache self))"
    "client_api_key self \<noteq> []" "client_secret_key self \<noteq> []" "client_retries self = 3"
    by (simp_all add: self_def new_BaiduOcrClient_def str_eval)
  have title: "title_of_content (ascii ''Title: abc'') = ascii ''abc''"
    by (simp add: title_of_content_def first_non_empty_line_def splitlines_def sub_quotes_def
          sub_label_def after_label_def is_quote_or_space_def is_label_sep_def is_linebreak_def
          Let_def str_eval)
  have tok: "ascii ''tok'' \<noteq> []" by (simp add: ascii_def)
  have bw: "slept (backoff_world w0 req 3) = [1, 2]" for req
    by (simp add: backoff_world_def w0_def upt_rec)
  have ok: "\<forall>i<3 - 1. net_ok (length (sent w0) + i) = RequestException i"
    "net_ok (length (sent w0) + (3 - 1)) = Json p0"
    by (simp_all add: net_ok_def w0_def)
  have bad: "\<forall>i<3 - 1. RequestException (length (sent w0) + i) = RequestException i"
    "RequestException (length (sent w0) + (3 - 1)) = RequestException (3 - 1)"
    by (simp_all add: w0_def)
  from retry_backoff [of 3 net_ok w0 "\<lambda>i. i" p0 "TokenRequest [] [] 0" deepseek_error "ascii ''key''" "ascii ''ocr''" "ascii ''sys''"
      "ascii ''user''" 3 "ascii ''Title: abc''" "\<lambda>t x. None" "[]" "[]" 60 self 1000 3600] ok strips self tok
  have good: "fst (extract_title_sentence net_ok (\<lambda>t x. None) (ascii ''key'') [] [] (ascii ''ocr'') (ascii ''sys'')
              (ascii ''user'') 60 3 w0) = Inr (ascii ''abc'')"
    "slept (snd (extract_title_sentence net_ok (\<lambda>t x. None) (ascii ''key'') [] [] (ascii ''ocr'')
              (ascii ''sys'') (ascii ''user'') 60 3 w0)) = [1, 2]"
    "fst (get_access_token net_ok 1000 self w0) = Inr (ascii ''tok'')"
    "slept (snd (snd (get_access_token net_ok 1000 self w0))) = [1, 2]"
    by (auto simp: p0_def title bw)
  from retry_backoff [of 3 RequestException w0 "\<lambda>i. i" p0 "TokenRequest [] [] 0" deepseek_error "ascii ''key''" "ascii ''ocr''" "ascii ''sys''"
      "ascii ''user''" 3 "ascii ''Title: abc''" "\<lambda>t x. None" "[]" "[]" 60 self 1000 3600] bad strips self
  have fail: "fst (extract_title_sentence RequestException (\<lambda>t x. None) (ascii ''key'') [] [] (ascii ''ocr'')
              (ascii ''sys'') (ascii ''user'') 60 3 w0)
           = Inl (DeepSeekError RequestFailed (FromRequestException 2))"
    "slept (snd (extract_title_sentence RequestException (\<lambda>t x. None) (ascii ''key'') [] []
              (ascii ''ocr'') (ascii ''sys'') (ascii ''user'') 60 3 w0)) = [1, 2]"
    "fst (get_access_token RequestException 1000 self w0)
           = Inl (BaiduOcrError TokenRequestFailed (FromRequestException 2))"
    by (auto simp: bw)
  from good fail show ?thesis
    unfolding Let_def w0_def [symmetric] p0_def [symmetric] net_ok_def [symmetric] self_def [symmetric]
    by simp
qed

subsection \<open>Claims on the token cache\<close>

lemma post_with_retries_shape:
  "post_with_retries net req retries mk attempt last_exc w = (res, w') \<Longrightarrow>
   \<exists>k. attempt + k \<le> max attempt retries \<and> sent w' = sent w @ replicate k req
       \<and> (\<forall>i<k - 1. \<exists>x. net (length (sent w) + i) = RequestException x)
       \<and> (\<forall>p. res = Inr p \<longrightarrow> 1 \<le> k \<and> net (length (sent w) + (k - 1)) = Json p)"
proof (induction net req retries mk attempt last_exc w arbitrary: res w' rule: post_with_retries.induct)
  case (1 net req retries mk attempt last_exc w)
  show ?case
  proof (cases "retries \<le> attempt")
    case True
    with "1.prems" have "res = Inl (mk (LoopExhausted last_exc))" "w' = w"
      by (simp_all add: post_with_retries.simps)
    then show ?thesis by (intro exI [of _ 0]) simp
  next
    case False
    note active = this
    show ?thesis
    proof (cases "net (length (sent w))")
      case (Json p)
      with active "1.prems" have "res = Inr p" "w' = w\<lparr>sent := sent w @ [req]\<rparr>"
        by (simp_all add: post_with_retries.simps)
      with Json active show ?thesis by (intro exI [of _ 1]) simp
    next
      case NotJson
      with active "1.prems" have "res = Inl (mk ResponseNotJson)" "w' = w\<lparr>sent := sent w @ [req]\<rparr>"
        by (simp_all add: post_with_retries.simps)
      with active show ?thesis by (intro exI [of _ 1]) simp
    next
      case (RequestException exc)
      show ?thesis
      proof (cases "retries \<le> attempt + 1")
        case True
        with RequestException active "1.prems"
        have "res = Inl (mk (TransportFailed exc))" "w' = w\<lparr>sent := sent w @ [req]\<rparr>"
          by (simp_all add: post_with_retries.simps)
        with active show ?thesis by (intro exI [of _ 1]) simp
      next
        case False
        let ?w1 = "w\<lparr>sent := sent w @ [req], slept := slept w @ [2 ^ attempt]\<rparr>"
        from False RequestException active "1.prems"
        have rec: "post_with_retries net req retries mk (attempt + 1) (Some exc) ?w1 = (res, w')"
          by (simp add: post_with_retries.simps [of net req retries mk attempt])
        from "1.IH" [OF active RequestException False rec]
        obtain k where k: "attempt + 1 + k \<le> max (attempt + 1) retries"
          "sent w' = sent ?w1 @ replicate k req"
          "\<forall>i<k - 1. \<exists>x. net (length (sent ?w1) + i) = RequestException x"
          "\<forall>p. res = Inr p \<longrightarrow> 1 \<le> k \<and> net (length (sent ?w1) + (k - 1)) = Json p"
          by blast
        have "attempt + Suc k \<le> max attempt retries" using k(1) False by simp
        moreover have "sent w' = sent w @ replicate (Suc k) req"
          using k(2) by (simp add: replicate_app_Cons_same)
        moreover have "\<forall>i<Suc k - 1. \<exists>x. net (length (sent w) + i) = RequestException x"
        proof (intro allI impI)
          fix i assume i: "i < Suc k - 1"
          show "\<exists>x. net (length (sent w) + i) = RequestException x"
          proof (cases i)
            case 0
            with RequestException show ?thesis by simp
          next
            case (Suc j)
            with i have "j < k - 1" by simp
            with k(3) Suc show ?thesis by simp
          qed
        qed
        moreover have "\<forall>p. res = Inr p \<longrightarrow> 1 \<le> Suc k \<and> net (length (sent w) + (Suc k - 1)) = Json p"
        proof (intro allI impI)
          fix p assume "res = Inr p"
          with k(4) have k1: "1 \<le> k" and j: "net (length (sent ?w1) + (k - 1)) = Json p" by blast+
          from k1 obtain k' where k': "k = Suc k'" by (cases k) auto
          from j have "net (length (sent w) + k) = Json p" unfolding k' by simp
          then show "1 \<le> Suc k \<and> net (length (sent w) + (Suc k - 1)) = Json p" by simp
        qed
        ultimately show ?thesis by blast
      qed
    qed
  qed
qed


lemma get_access_token_fresh:
  "token (token_cache self) \<noteq> [] \<and> now < expires_at_epoch (token_cache self) \<Longrightarrow>
     get_access_token net now self w = (Inr (token (token_cache self)), self, w)"
  by (simp add: get_access_token_def)

lemma get_access_token_stale_ok:
  assumes stale: "\<not> (token (token_cache self) \<noteq> [] \<and> now < expires_at_epoch (token_cache self))"
      and res: "get_access_token net now self w = (Inr t, self', w')"
  shows "\<exists>k p ttl. 1 \<le> k \<and> k \<le> client_retries self
            \<and> sent w' = sent w @ replicate k
                  (TokenRequest (client_api_key self) (client_secret_key self) (client_timeout_s self))
            \<and> (\<forall>i<k - 1. \<exists>x. net (length (sent w) + i) = RequestException x)
            \<and> net (length (sent w) + (k - 1)) = Json p
            \<and> access_token p = t \<and> t \<noteq> [] \<and> expires_in p = Inr ttl
            \<and> self' = self\<lparr>token_cache :=
                   \<lparr>token = t, expires_at_epoch = now + real_of_int (max 0 (ttl - 60))\<rparr>\<rparr>
            \<and> now \<le> expires_at_epoch (token_cache self')"
proof -
  let ?req = "TokenRequest (client_api_key self) (client_secret_key self) (client_timeout_s self)"
  obtain r w1 where loop:
    "post_with_retries net ?req (client_retries self) baidu_token_error 0 None w = (r, w1)"
    by (cases "post_with_retries net ?req (client_retries self) baidu_token_error 0 None w")
  from stale res loop obtain p ttl where p: "r = Inr p" "expires_in p = Inr ttl" "access_token p \<noteq> []"
    "t = access_token p" "w' = w1"
    "self' = self\<lparr>token_cache :=
         \<lparr>token = access_token p, expires_at_epoch = now + real_of_int (max 0 (ttl - 60))\<rparr>\<rparr>"
    by (auto simp: get_access_token_def split: if_splits sum.splits)
  from post_with_retries_shape [OF loop] p(1)
  obtain k where k: "0 + k \<le> max 0 (client_retries self)" "sent w1 = sent w @ replicate k ?req"
    "\<forall>i<k - 1. \<exists>x. net (length (sent w) + i) = RequestException x"
    "1 \<le> k" "net (length (sent w) + (k - 1)) = Json p"
    by blast
  have "now \<le> expires_at_epoch (token_cache self')" using p(6) by simp
  with k p show ?thesis by (intro exI [of _ k] exI [of _ p] exI [of _ ttl]) simp
qed

lemma get_access_token_stale_error:
  assumes res: "get_access_token net now self w = (Inl e, self', w')"
  shows "self' = self \<and> (\<exists>k\<le>client_retries self. sent w' = sent w @ replicate k
                  (TokenRequest (client_api_key self) (client_secret_key self) (client_timeout_s self)))"
proof -
  let ?req = "TokenRequest (client_api_key self) (client_secret_key self) (client_timeout_s self)"
  obtain r w1 where loop:
    "post_with_retries net ?req (client_retries self) baidu_token_error 0 None w = (r, w1)"
    by (cases "post_with_retries net ?req (client_retries self) baidu_token_error 0 None w")
  from post_with_retries_shape [OF loop]
  obtain k where k: "0 + k \<le> max 0 (client_retries self)" "sent w1 = sent w @ replicate k ?req"
    by blast
  from res loop have "self' = self \<and> (w' = w \<or> w' = w1)"
    by (auto simp: get_access_token_def split: if_splits sum.splits)
  then show ?thesis
  proof (elim conjE disjE)
    assume "self' = self" "w' = w"
    then show ?thesis by (intro conjI exI [of _ 0]) simp_all
  next
    assume "self' = self" "w' = w1"
    with k show ?thesis by (intro conjI exI [of _ k]) simp_all
  qed
qed

lemma get_access_token_retries:
  "get_access_token net now self w = (tres, self', w') \<Longrightarrow>
     client_retries self' = client_retries self \<and> client_timeout_s self' = client_timeout_s self"
  by (auto simp: get_access_token_def split: if_splits sum.splits prod.splits)

lemma recognize_order:
  assumes res: "recognize net now encode self w image_bytes endpoint language_type detect_direction
                  = (res, self', w')"
  shows "\<exists>tres w1. get_access_token net now self w = (tres, self', w1)
           \<and> (case tres of
                Inl e \<Rightarrow> res = Inl e \<and> w' = w1
              | Inr t \<Rightarrow> \<exists>m url. m \<le> client_retries self
                     \<and> sent w' = sent w1 @ replicate m
                          (OcrRequest url t (encode image_bytes) language_type detect_direction
                             (client_timeout_s self)))"
proof -
  obtain tres self1 w1 where tok: "get_access_token net now self w = (tres, self1, w1)"
    by (cases "get_access_token net now self w")
  note same = get_access_token_retries [OF tok]
  show ?thesis
  proof (cases tres)
    case (Inl e)
    with tok res have "res = Inl e" "self' = self1" "w' = w1" by (simp_all add: recognize_def)
    with tok Inl show ?thesis by simp
  next
    case (Inr t)
    define ep where "ep = py_lower (py_strip (if endpoint = [] then ascii ''accurate_basic'' else endpoint))"
    show ?thesis
    proof (cases "ep \<noteq> ascii ''accurate_basic'' \<and> ep \<noteq> ascii ''general_basic''")
      case True
      with tok Inr res have "self' = self1" "w' = w1"
        by (simp_all add: recognize_def ep_def Let_def)
      with tok Inr show ?thesis by (auto intro!: exI [of _ 0])
    next
      case False
      define url where "url = (if ep = ascii ''accurate_basic'' then OCR_ACCURATE_BASIC_URL
                         else OCR_GENERAL_BASIC_URL)"
      let ?req = "OcrRequest url t (encode image_bytes) language_type detect_direction (client_timeout_s self1)"
      obtain r w2 where loop:
        "post_with_retries net ?req (client_retries self1) baidu_ocr_error 0 None w1 = (r, w2)"
        by (cases "post_with_retries net ?req (client_retries self1) baidu_ocr_error 0 None w1")
      from post_with_retries_shape [OF loop]
      obtain m where m: "0 + m \<le> max 0 (client_retries self1)" "sent w2 = sent w1 @ replicate m ?req"
        by blast
      from tok Inr res False loop have "self' = self1" "w' = w2"
        by (auto simp: recognize_def ep_def [symmetric] url_def [symmetric] Let_def split: sum.splits if_splits)
      with tok Inr m same show ?thesis by (auto intro!: exI [of _ m] exI [of _ url])
    qed
  qed
qed


text \<open>
  C5. While the cached token is not empty and \<open>now\<close> is before the stored expiry,
  \<open>_get_access_token\<close> returns the cached token and sends nothing. Otherwise, when it
  returns a token, that token is the one of the single payload received, after at most
  \<open>retries\<close> token requests of which all but the last ended in a \<open>RequestException\<close>, and
  the cache holds it with expiry \<open>now + max 0 (ttl - 60)\<close>; when it raises, the cache is
  unchanged. \<open>recognize\<close> calls \<open>_get_access_token\<close> first: every OCR request comes after
  the token requests and carries the token returned, and no OCR request is sent when the
  token acquisition raises.
\<close>

theorem token_cache_invariant:
  "(token (token_cache self) \<noteq> [] \<and> now < expires_at_epoch (token_cache self) \<longrightarrow>
      get_access_token net now self w = (Inr (token (token_cache self)), self, w))
   \<and> (\<not> (token (token_cache self) \<noteq> [] \<and> now < expires_at_epoch (token_cache self)) \<longrightarrow>
        (\<forall>t self' w'. get_access_token net now self w = (Inr t, self', w') \<longrightarrow>
           (\<exists>k p ttl. 1 \<le> k \<and> k \<le> client_retries self
              \<and> sent w' = sent w @ replicate k
                    (TokenRequest (client_api_key self) (client_secret_key self) (client_timeout_s self))
              \<and> (\<forall>i<k - 1. \<exists>x. net (length (sent w) + i) = RequestException x)
              \<and> net (length (sent w) + (k - 1)) = Json p
              \<and> access_token p = t \<and> t \<noteq> [] \<and> expires_in p = Inr ttl
              \<and> self' = self\<lparr>token_cache :=
                     \<lparr>token = t, expires_at_epoch = now + real_of_int (max 0 (ttl - 60))\<rparr>\<rparr>
              \<and> now \<le> expires_at_epoch (token_cache self'))))
   \<and> (\<forall>e self' w'. get_access_token net now self w = (Inl e, self', w') \<longrightarrow>
         self' = self \<and> (\<exists>k\<le>client_retries self. sent w' = sent w @ replicate k
            (TokenRequest (client_api_key self) (client_secret_key self) (client_timeout_s self))))
   \<and> (\<forall>res self' w'.
         recognize net now encode self w image_bytes endpoint language_type detect_direction
           = (res, self', w') \<longrightarrow>
         (\<exists>tres w1. get_access_token net now self w = (tres, self', w1)
            \<and> (case tres of
                 Inl e \<Rightarrow> res = Inl e \<and> w' = w1
               | Inr t \<Rightarrow> \<exists>m url. m \<le> client_retries self
                      \<and> sent w' = sent w1 @ replicate m
                           (OcrRequest url t (encode image_bytes) language_type detect_direction
                              (client_timeout_s self)))))"
proof (intro conjI impI allI)
  assume "token (token_cache self) \<noteq> [] \<and> now < expires_at_epoch (token_cache self)"
  then show "get_access_token net now self w = (Inr (token (token_cache self)), self, w)"
    by (rule get_access_token_fresh)
next
  fix t self' w'
  assume "\<not> (token (token_cache self) \<noteq> [] \<and> now < expires_at_epoch (token_cache self))"
     and "get_access_token net now self w = (Inr t, self', w')"
  then show "\<exists>k p ttl. 1 \<le> k \<and> k \<le> client_retries self
              \<and> sent w' = sent w @ replicate k
                    (TokenRequest (client_api_key self) (client_secret_key self) (client_timeout_s self))
              \<and> (\<forall>i<k - 1. \<exists>x. net (length (sent w) + i) = RequestException x)
              \<and> net (length (sent w) + (k - 1)) = Json p
              \<and> access_token p = t \<and> t \<noteq> [] \<and> expires_in p = Inr ttl
              \<and> self' = self\<lparr>token_cache :=
                     \<lparr>token = t, expires_at_epoch = now + real_of_int (max 0 (ttl - 60))\<rparr>\<rparr>
              \<and> now \<le> expires_at_epoch (token_cache self')"
    by (rule get_access_token_stale_ok)
next
  fix e self' w'
  assume a: "get_access_token net now self w = (Inl e, self', w')"
  from get_access_token_stale_error [OF a]
  show "self' = self"
    and "\<exists>k\<le>client_retries self. sent w' = sent w @ replicate k
            (TokenRequest (client_api_key self) (client_secret_key self) (client_timeout_s self))"
    by simp_all
next
  fix res self' w'
  assume "recognize net now encode self w image_bytes endpoint language_type detect_direction
           = (res, self', w')"
  then show "\<exists>tres w1. get_access_token net now self w = (tres, self', w1)
            \<and> (case tres of
                 Inl e \<Rightarrow> res = Inl e \<and> w' = w1
               | Inr t \<Rightarrow> \<exists>m url. m \<le> client_retries self
                      \<and> sent w' = sent w1 @ replicate m
                           (OcrRequest url t (encode image_bytes) language_type detect_direction
                              (client_timeout_s self)))"
    by (rule recognize_order)
qed

text \<open>
  Two calls of \<open>recognize\<close>, at times 1000 and 2000, with a token valid for 3600 seconds:
  one token request in all, before the first OCR request.
\<close>

theorem token_cache_invariant_witness:
  "(let tokp = \<lparr>access_token = ascii ''tok'', expires_in = Inr 3600, has_error_code = False,
                 words_result = [], content = None\<rparr>;
        ocrp = \<lparr>access_token = [], expires_in = Inr 0, has_error_code = False,
                 words_result = [ascii ''hello''], content = None\<rparr>;
        net0 = (\<lambda>i. if i = 0 then Json tokp else Json ocrp);
        self0 = new_BaiduOcrClient (ascii ''id'') (ascii ''secret'') 60 2;
        self1 = self0\<lparr>token_cache := \<lparr>token = ascii ''tok'', expires_at_epoch = 4540\<rparr>\<rparr>;
        treq = TokenRequest (ascii ''id'') (ascii ''secret'') 60;
        oreq = OcrRequest OCR_ACCURATE_BASIC_URL (ascii ''tok'') [1, 2, 3] (ascii ''CHN_ENG'') True 60;
        w0 = \<lparr>sent = [], slept = []\<rparr>;
        w1 = \<lparr>sent = [treq, oreq], slept = []\<rparr>;
        w2 = \<lparr>sent = [treq, oreq, oreq], slept = []\<rparr>
    in \<not> (token (token_cache self0) \<noteq> [] \<and> 1000 < expires_at_epoch (token_cache self0))
       \<and> recognize net0 1000 (\<lambda>b. b) self0 w0 [1, 2, 3] (ascii ''accurate_basic'') (ascii ''CHN_ENG'') True
           = (Inr (ascii ''hello''), self1, w1)
       \<and> (token (token_cache self1) \<noteq> [] \<and> 2000 < expires_at_epoch (token_cache self1))
       \<and> get_access_token net0 2000 self1 w1 = (Inr (ascii ''tok''), self1, w1)
       \<and> recognize net0 2000 (\<lambda>b. b) self1 w1 [1, 2, 3] (ascii ''accurate_basic'') (ascii ''CHN_ENG'') True
           = (Inr (ascii ''hello''), self1, w2))"
proof -
  define tokp where "tokp = \<lparr>access_token = ascii ''tok'', expires_in = Inr 3600, has_error_code = False,
                 words_result = [], content = None\<rparr>"
  define ocrp where "ocrp = \<lparr>access_token = [], expires_in = Inr 0, has_error_code = False,
                 words_result = [ascii ''hello''], content = None\<rparr>"
  define net0 where "net0 = (\<lambda>i::nat. if i = 0 then Json tokp else Json ocrp)"
  define self0 where "self0 = new_BaiduOcrClient (ascii ''id'') (ascii ''secret'') 60 2"
  define self1 where "self1 = self0\<lparr>token_cache := \<lparr>token = ascii ''tok'', expires_at_epoch = 4540\<rparr>\<rparr>"
  define treq where "treq = TokenRequest (ascii ''id'') (ascii ''secret'') 60"
  define oreq where "oreq = OcrRequest OCR_ACCURATE_BASIC_URL (ascii ''tok'') [1, 2, 3] (ascii ''CHN_ENG'') True 60"
  define w0 where "w0 = \<lparr>sent = [], slept = []\<rparr>"
  define w1 where "w1 = \<lparr>sent = [treq, oreq], slept = []\<rparr>"
  define w2 where "w2 = \<lparr>sent = [treq, oreq, oreq], slept = []\<rparr>"
  have self0: "client_api_key self0 = ascii ''id''" "client_secret_key self0 = ascii ''secret''"
    "client_timeout_s self0 = 60" "client_retries self0 = 2"
    "token_cache self0 = \<lparr>token = [], expires_at_epoch = 0\<rparr>"
    by (simp_all add: self0_def new_BaiduOcrClient_def str_eval)
  have ids: "ascii ''id'' \<noteq> []" "ascii ''secret'' \<noteq> []" "ascii ''tok'' \<noteq> []"
    by (simp_all add: ascii_def)
  have ep: "py_lower (py_strip (ascii ''accurate_basic'')) = ascii ''accurate_basic''"
    "ascii ''accurate_basic'' \<noteq> []"
    by (simp_all add: py_lower_def str_eval)
  have hello: "py_strip (ascii ''hello'') = ascii ''hello''" "ascii ''hello'' \<noteq> []"
    by (simp_all add: str_eval)
  have stale0: "\<not> (token (token_cache self0) \<noteq> [] \<and> 1000 < expires_at_epoch (token_cache self0))"
    by (simp add: self0)
  have tok0: "get_access_token net0 1000 self0 w0 = (Inr (ascii ''tok''), self1, \<lparr>sent = [treq], slept = []\<rparr>)"
    by (simp add: get_access_token_def self0 ids post_with_retries.simps net0_def tokp_def w0_def
          self1_def treq_def)
  have call1: "recognize net0 1000 (\<lambda>b. b) self0 w0 [1, 2, 3] (ascii ''accurate_basic'') (ascii ''CHN_ENG'') True
           = (Inr (ascii ''hello''), self1, w1)"
    unfolding recognize_def tok0
    by (simp add: ep Let_def self1_def self0 post_with_retries.simps net0_def
          ocrp_def hello w1_def oreq_def)
  have fresh1: "token (token_cache self1) \<noteq> [] \<and> 2000 < expires_at_epoch (token_cache self1)"
    by (simp add: self1_def ids)
  from token_cache_invariant [of self1 2000 net0 w1] fresh1
  have tok1: "get_access_token net0 2000 self1 w1 = (Inr (ascii ''tok''), self1, w1)"
    by (simp add: self1_def)
  have call2: "recognize net0 2000 (\<lambda>b. b) self1 w1 [1, 2, 3] (ascii ''accurate_basic'') (ascii ''CHN_ENG'') True
           = (Inr (ascii ''hello''), self1, w2)"
    unfolding recognize_def tok1
    by (simp add: ep Let_def self1_def self0 post_with_retries.simps net0_def
          ocrp_def hello w1_def w2_def oreq_def)
  from stale0 call1 fresh1 tok1 call2 show ?thesis
    unfolding Let_def tokp_def [symmetric] ocrp_def [symmetric] net0_def [symmetric]
      self0_def [symmetric] self1_def [symmetric] treq_def [symmetric] oreq_def [symmetric]
      w0_def [symmetric] w1_def [symmetric] w2_def [symmetric]
    by simp
qed

subsection \<open>Claims on the frame extractor\<close>

text \<open>
  C7, as the code has it. When the frame number is valid, \<open>ffmpeg\<close> is found and the
  first process exits with code 0 and no output, exactly one more process is started, with
  \<open>-sseof -0.1\<close>, and the call raises \<open>VideoFrameError\<close> when that process times out, exits
  with another code, gives no output, or gives output that does not decode as an image;
  otherwise it returns the output of that process and the decoded image.
\<close>

theorem extract_frame_fallback:
  assumes frame: "1 \<le> frame_no"
      and found: "(case which (ascii ''ffmpeg'') of
                     Some f \<Rightarrow> if f \<noteq> [] then Some f else which (ascii ''ffmpeg.exe'')
                   | None \<Rightarrow> which (ascii ''ffmpeg.exe'')) = Some ffmpeg"
                 "ffmpeg \<noteq> []"
      and primary: "run (length procs) = Completed 0 [] err"
  shows "snd (extract_frame_as_png_bytes which run decode procs video_path frame_no)
           = procs @ [select_args ffmpeg video_path (frame_no - 1),
                      last_frame_args ffmpeg video_path]
       \<and> ascii ''-sseof'' \<in> set (last_frame_args ffmpeg video_path)
       \<and> ascii ''-0.1'' \<in> set (last_frame_args ffmpeg video_path)
       \<and> fst (extract_frame_as_png_bytes which run decode procs video_path frame_no)
           = (case run (Suc (length procs)) of
                TimeoutExpired \<Rightarrow> Inl (VideoFrameError FfmpegTimeout FromTimeoutExpired)
              | Completed returncode out err2 \<Rightarrow>
                  if returncode \<noteq> 0 then Inl (VideoFrameError FfmpegFailed NoCause)
                  else if out = [] then Inl (VideoFrameError ReadFrameFailed NoCause)
                  else (case decode out of
                          None \<Rightarrow> Inl (VideoFrameError PngDecodeFailed FromException)
                        | Some img \<Rightarrow> Inr (out, img)))"
  using assms
  by (simp add: extract_frame_as_png_bytes_def run_extract_def decode_png_def Let_def
        last_frame_args_def split: proc_result.splits)


theorem extract_frame_fallback_witness:
  "(let run = (\<lambda>k. if k = 0 then Completed 0 [] [] else Completed 0 [1, 2, 3] []);
        v = \<lparr>parent = ascii ''d'', name = ascii ''v.mp4''\<rparr>;
        r = extract_frame_as_png_bytes (\<lambda>c. Some (ascii ''ffmpeg'')) run (\<lambda>b. Some (length b)) [] v 5
    in fst r = Inr ([1, 2, 3], 3)
       \<and> snd r = [select_args (ascii ''ffmpeg'') v 4, last_frame_args (ascii ''ffmpeg'') v])"
proof -
  define run where "run = (\<lambda>k::nat. if k = 0 then Completed 0 [] [] else Completed 0 [1, 2, 3] [])"
  define v where "v = \<lparr>parent = ascii ''d'', name = ascii ''v.mp4''\<rparr>"
  have ff: "ascii ''ffmpeg'' \<noteq> []" by (simp add: ascii_def)
  have "(1::int) \<le> 5" by simp
  moreover have "(case (\<lambda>c. Some (ascii ''ffmpeg'')) (ascii ''ffmpeg'') of
                     Some f \<Rightarrow> if f \<noteq> [] then Some f else (\<lambda>c. Some (ascii ''ffmpeg'')) (ascii ''ffmpeg.exe'')
                   | None \<Rightarrow> (\<lambda>c. Some (ascii ''ffmpeg'')) (ascii ''ffmpeg.exe'')) = Some (ascii ''ffmpeg'')"
    using ff by simp
  moreover have "run (length ([] :: ustr list list)) = Completed 0 [] []" by (simp add: run_def)
  ultimately have
    "snd (extract_frame_as_png_bytes (\<lambda>c. Some (ascii ''ffmpeg'')) run (\<lambda>b. Some (length b)) [] v 5)
       = [] @ [select_args (ascii ''ffmpeg'') v (5 - 1), last_frame_args (ascii ''ffmpeg'') v]
     \<and> fst (extract_frame_as_png_bytes (\<lambda>c. Some (ascii ''ffmpeg'')) run (\<lambda>b. Some (length b)) [] v 5)
       = (case run (Suc (length ([] :: ustr list list))) of
                TimeoutExpired \<Rightarrow> Inl (VideoFrameError FfmpegTimeout FromTimeoutExpired)
              | Completed returncode out err2 \<Rightarrow>
                  if returncode \<noteq> 0 then Inl (VideoFrameError FfmpegFailed NoCause)
                  else if out = [] then Inl (VideoFrameError ReadFrameFailed NoCause)
                  else (case Some (length out) of
                          None \<Rightarrow> Inl (VideoFrameError PngDecodeFailed FromException)
                        | Some img \<Rightarrow> Inr (out, img)))"
    using extract_frame_fallback [of 5 "\<lambda>c. Some (ascii ''ffmpeg'')" "ascii ''ffmpeg''" run "[]" "[]"
            "\<lambda>b. Some (length b)" v] ff
    by blast
  then show ?thesis
    unfolding Let_def run_def [symmetric] v_def [symmetric] by (simp add: run_def)
qed

text \<open>
  The claim as stated fails: the fallback attempt yields three bytes, they do not decode,
  and \<open>VideoFrameError\<close> is raised.
\<close>

theorem extract_frame_fallback_counterexample:
  "(let run = (\<lambda>k. if k = 0 then Completed 0 [] [] else Completed 0 [1, 2, 3] []);
        v = \<lparr>parent = ascii ''d'', name = ascii ''v.mp4''\<rparr>;
        r = extract_frame_as_png_bytes (\<lambda>c. Some (ascii ''ffmpeg'')) run (\<lambda>b. None :: nat option) [] v 5
    in run 0 = Completed 0 [] [] \<and> run 1 = Completed 0 [1, 2, 3] []
       \<and> fst r = Inl (VideoFrameError PngDecodeFailed FromException)
       \<and> snd r = [select_args (ascii ''ffmpeg'') v 4, last_frame_args (ascii ''ffmpeg'') v])"
  by (simp add: extract_frame_as_png_bytes_def run_extract_def decode_png_def Let_def ascii_def)

subsection \<open>Claims on the saved configuration\<close>

text \<open>
  C9. When \<open>save_keys_locally\<close> is false, the document written has the three credential
  fields empty, the document is the same whatever the three credentials in memory are, and
  the configuration object is unchanged.
\<close>

theorem save_config_blanks_keys:
  "\<not> save_keys_locally config \<longrightarrow>
     fst (save_config p config files) = config
     \<and> (\<exists>data. snd (save_config p config files) p = Some data
           \<and> map_of data ''baidu_api_key'' = Some (JStr [])
           \<and> map_of data ''baidu_secret_key'' = Some (JStr [])
           \<and> map_of data ''deepseek_api_key'' = Some (JStr []))
     \<and> snd (save_config p
               (config\<lparr>baidu_api_key := k1, baidu_secret_key := k2, deepseek_api_key := k3\<rparr>) files)
         = snd (save_config p config files)"
  by (simp add: save_config_def asdict_def Let_def)

theorem save_config_blanks_keys_witness:
  "(let config = \<lparr>input_dir = ascii ''d'', include_subdirs = False, frame_number_1based = 1,
          start_index = 1, index_padding = 3, dry_run = False,
          baidu_api_key = ascii ''AK'', baidu_secret_key = ascii ''SK'',
          baidu_ocr_mode = ascii ''accurate_basic'', deepseek_api_key = ascii ''DK'',
          deepseek_base_url = [], deepseek_model = [], deepseek_system_prompt = ascii ''s'',
          deepseek_user_prompt_template = ascii ''u'', save_keys_locally = False, recent_dirs = []\<rparr>;
        p = \<lparr>parent = ascii ''.'', name = ascii ''config.json''\<rparr>
    in \<not> save_keys_locally config
       \<and> fst (save_config p config Map.empty) = config
       \<and> baidu_api_key (fst (save_config p config Map.empty)) = ascii ''AK''
       \<and> (\<exists>data. snd (save_config p config Map.empty) p = Some data
             \<and> map_of data ''baidu_api_key'' = Some (JStr [])
             \<and> map_of data ''baidu_secret_key'' = Some (JStr [])
             \<and> map_of data ''deepseek_api_key'' = Some (JStr [])))"
proof -
  define config where "config = \<lparr>input_dir = ascii ''d'', include_subdirs = False, frame_number_1based = 1,
          start_index = 1, index_padding = 3, dry_run = False,
          baidu_api_key = ascii ''AK'', baidu_secret_key = ascii ''SK'',
          baidu_ocr_mode = ascii ''accurate_basic'', deepseek_api_key = ascii ''DK'',
          deepseek_base_url = [], deepseek_model = [], deepseek_system_prompt = ascii ''s'',
          deepseek_user_prompt_template = ascii ''u'', save_keys_locally = False, recent_dirs = []\<rparr>"
  define p where "p = \<lparr>parent = ascii ''.'', name = ascii ''config.json''\<rparr>"
  have no: "\<not> save_keys_locally config" by (simp add: config_def)
  have ak: "baidu_api_key config = ascii ''AK''" by (simp add: config_def)
  from save_config_blanks_keys [of config p Map.empty] no ak
  have "\<not> save_keys_locally config
       \<and> fst (save_config p config Map.empty) = config
       \<and> baidu_api_key (fst (save_config p config Map.empty)) = ascii ''AK''
       \<and> (\<exists>data. snd (save_config p config Map.empty) p = Some data
             \<and> map_of data ''baidu_api_key'' = Some (JStr [])
             \<and> map_of data ''baidu_secret_key'' = Some (JStr [])
             \<and> map_of data ''deepseek_api_key'' = Some (JStr []))"
    by simp
  then show ?thesis
    unfolding Let_def config_def [symmetric] p_def [symmetric] .
qed

subsection \<open>Claims on the batch worker\<close>

lemma status_texts_differ:
  "STATUS_READING \<noteq> STATUS_PREVIEW" "STATUS_OCR \<noteq> STATUS_PREVIEW"
  "STATUS_DEEPSEEK \<noteq> STATUS_PREVIEW" "STATUS_DONE \<noteq> STATUS_PREVIEW"
  by (simp_all add: STATUS_READING_def STATUS_OCR_def STATUS_DEEPSEEK_def STATUS_DONE_def
        STATUS_PREVIEW_def)

lemma no_preview_put:
  "no_preview_status (ws_queue st) \<Longrightarrow> (\<And>p. ev \<noteq> StatusEvent p STATUS_PREVIEW) \<Longrightarrow>
     no_preview_status (ws_queue (put ev st))"
  by (auto simp: no_preview_status_def put_def)

lemma no_preview_item_failed:
  "no_preview_status (ws_queue st) \<Longrightarrow> no_preview_status (ws_queue (item_failed offset p stage e st))"
  by (simp add: item_failed_def no_preview_put)

lemma process_item_no_preview:
  assumes "no_preview_status (ws_queue st)" "process_item env cfg offset row_path st = Some st'"
  shows "no_preview_status (ws_queue st')"
  using assms
  by (auto simp: process_item_def Let_def no_preview_put no_preview_item_failed status_texts_differ
        split: prod.splits sum.splits option.splits if_splits)

lemma run_rows_no_preview:
  "no_preview_status (ws_queue st) \<Longrightarrow> run_rows env cfg offset rows st = Some st' \<Longrightarrow>
     no_preview_status (ws_queue st')"
proof (induction rows arbitrary: offset st)
  case Nil
  then show ?case by simp
next
  case (Cons row rows)
  show ?case
  proof (cases "env_stop env offset")
    case True
    with Cons.prems show ?thesis by simp
  next
    case False
    with Cons.prems obtain st1 where st1: "process_item env cfg offset row st = Some st1"
      "run_rows env cfg (offset + 1) rows st1 = Some st'"
      by (auto split: option.splits)
    from process_item_no_preview [OF Cons.prems(1) st1(1)] have "no_preview_status (ws_queue st1)" .
    then show ?thesis using st1(2) by (rule Cons.IH)
  qed
qed

text \<open>
  Whatever the configuration, the rows and the outside world: when \<open>_run_worker\<close> ends, no
  \<open>status\<close> event on its queue carries the preview text.
\<close>

lemma run_worker_no_preview:
  "run_worker env cfg rows disk = Some st \<Longrightarrow> no_preview_status (ws_queue st)"
proof -
  assume a: "run_worker env cfg rows disk = Some st"
  let ?st0 = "\<lparr>ws_queue = [], ws_disk = disk, ws_http = \<lparr>sent = [], slept = []\<rparr>, ws_procs = [],
                 ws_client = new_BaiduOcrClient (baidu_api_key cfg) (baidu_secret_key cfg) 60 2\<rparr>"
  from a obtain st1 where st1: "run_rows env cfg 0 rows ?st0 = Some st1"
    "st = put (DoneEvent DONE_MESSAGE) st1"
    by (auto simp: run_worker_def Let_def split: option.splits)
  have "no_preview_status (ws_queue ?st0)" by (simp add: no_preview_status_def)
  from run_rows_no_preview [OF this st1(1)] have "no_preview_status (ws_queue st1)" .
  with st1(2) show ?thesis by (simp add: no_preview_put)
qed

text \<open>
  C3. A batch of one row \<open>d/a.mp4\<close> on which every stage succeeds, run with \<open>dry_run\<close> set
  and then not set, from the same file system and the same outside world. Both runs send
  the same \<open>title\<close> event (title \<open>good title\<close>, new name \<open>001-good title.mp4\<close>); the
  dry run leaves the file system as it is and the live run renames the file. The last
  \<open>status\<close> event of the dry run carries the text of \<open>STATUS_DONE\<close>, as the live run's
  does, not the preview text.
\<close>

theorem run_worker_dry_run_status:
  "(let row = \<lparr>parent = ascii ''d'', name = ascii ''a.mp4''\<rparr>;
        target = \<lparr>parent = ascii ''d'', name = ascii ''001-good title.mp4''\<rparr>;
        tokp = \<lparr>access_token = ascii ''tok'', expires_in = Inr 3600, has_error_code = False,
                 words_result = [], content = None\<rparr>;
        ocrp = \<lparr>access_token = [], expires_in = Inr 0, has_error_code = False,
                 words_result = [ascii ''hello''], content = None\<rparr>;
        chatp = \<lparr>access_token = [], expires_in = Inr 0, has_error_code = False,
                 words_result = [], content = Some (ascii ''good title'')\<rparr>;
        env = \<lparr>env_which = (\<lambda>c. Some (ascii ''ffmpeg'')),
                env_run = (\<lambda>k. Completed 0 [2, 3, 4] []),
                env_decode = (\<lambda>b. Some (7 :: nat)),
                env_net = (\<lambda>i. if i = 0 then Json tokp else if i = 1 then Json ocrp else Json chatp),
                env_now = (\<lambda>k. 1000),
                env_fmt = (\<lambda>t x. Some (t @ x)),
                env_encode = (\<lambda>b. b),
                env_stop = (\<lambda>k. False)\<rparr>;
        cfg = \<lparr>input_dir = ascii ''d'', include_subdirs = False, frame_number_1based = 1,
                start_index = 1, index_padding = 3, dry_run = True,
                baidu_api_key = ascii ''AK'', baidu_secret_key = ascii ''SK'',
                baidu_ocr_mode = ascii ''accurate_basic'', deepseek_api_key = ascii ''DK'',
                deepseek_base_url = [], deepseek_model = [], deepseek_system_prompt = ascii ''s'',
                deepseek_user_prompt_template = ascii ''u'', save_keys_locally = False,
                recent_dirs = []\<rparr>
    in map_option ws_queue (run_worker env cfg [row] {row})
         = Some [StatusEvent row STATUS_READING, PreviewEvent row 7, StatusEvent row STATUS_OCR,
                 OcrEvent row (ascii ''hello''), StatusEvent row STATUS_DEEPSEEK,
                 TitleEvent row (ascii ''good title'') (ascii ''001-good title.mp4''),
                 StatusEvent row STATUS_DONE, ProgressEvent 1, DoneEvent DONE_MESSAGE]
       \<and> map_option ws_disk (run_worker env cfg [row] {row}) = Some {row}
       \<and> map_option ws_queue (run_worker env (cfg\<lparr>dry_run := False\<rparr>) [row] {row})
         = Some [StatusEvent row STATUS_READING, PreviewEvent row 7, StatusEvent row STATUS_OCR,
                 OcrEvent row (ascii ''hello''), StatusEvent row STATUS_DEEPSEEK,
                 TitleEvent row (ascii ''good title'') (ascii ''001-good title.mp4''),
                 RenamedEvent row target, StatusEvent target STATUS_DONE, ProgressEvent 1,
                 DoneEvent DONE_MESSAGE]
       \<and> map_option ws_disk (run_worker env (cfg\<lparr>dry_run := False\<rparr>) [row] {row}) = Some {target}
       \<and> STATUS_DONE \<noteq> STATUS_PREVIEW)"
proof -
  define row where "row = \<lparr>parent = ascii ''d'', name = ascii ''a.mp4''\<rparr>"
  define target where "target = \<lparr>parent = ascii ''d'', name = ascii ''001-good title.mp4''\<rparr>"
  define tokp where "tokp = \<lparr>access_token = ascii ''tok'', expires_in = Inr 3600, has_error_code = False,
                 words_result = [], content = None\<rparr>"
  define ocrp where "ocrp = \<lparr>access_token = [], expires_in = Inr 0, has_error_code = False,
                 words_result = [ascii ''hello''], content = None\<rparr>"
  define chatp where "chatp = \<lparr>access_token = [], expires_in = Inr 0, has_error_code = False,
                 words_result = [], content = Some (ascii ''good title'')\<rparr>"
  define net where "net = (\<lambda>i::nat. if i = 0 then Json tokp else if i = 1 then Json ocrp else Json chatp)"
  define env :: "nat env" where "env = \<lparr>env_which = (\<lambda>c. Some (ascii ''ffmpeg'')),
                env_run = (\<lambda>k. Completed 0 [2, 3, 4] []),
                env_decode = (\<lambda>b. Some (7 :: nat)),
                env_net = net,
                env_now = (\<lambda>k. 1000),
                env_fmt = (\<lambda>t x. Some (t @ x)),
                env_encode = (\<lambda>b. b),
                env_stop = (\<lambda>k. False)\<rparr>"
  define cfg where "cfg = \<lparr>input_dir = ascii ''d'', include_subdirs = False, frame_number_1based = 1,
                start_index = 1, index_padding = 3, dry_run = True,
                baidu_api_key = ascii ''AK'', baidu_secret_key = ascii ''SK'',
                baidu_ocr_mode = ascii ''accurate_basic'', deepseek_api_key = ascii ''DK'',
                deepseek_base_url = [], deepseek_model = [], deepseek_system_prompt = ascii ''s'',
                deepseek_user_prompt_template = ascii ''u'', save_keys_locally = False,
                recent_dirs = []\<rparr>"
  define client0 where "client0 = new_BaiduOcrClient (ascii ''AK'') (ascii ''SK'') 60 2"
  define client1 where "client1 = client0\<lparr>token_cache := \<lparr>token = ascii ''tok'', expires_at_epoch = 4540\<rparr>\<rparr>"
  define treq where "treq = TokenRequest (ascii ''AK'') (ascii ''SK'') 60"
  define oreq where "oreq = OcrRequest OCR_ACCURATE_BASIC_URL (ascii ''tok'') [2, 3, 4] (ascii ''CHN_ENG'') True 60"
  define creq where "creq = ChatRequest (ascii ''https://api.deepseek.com/v1'' @ ascii ''/chat/completions'')
      (ascii ''DK'') (ascii ''deepseek-chat'') (ascii ''s'') (ascii ''u'' @ ascii ''hello'') 60"
  define w0 where "w0 = \<lparr>sent = [], slept = []\<rparr>"
  define w1 where "w1 = \<lparr>sent = [treq, oreq], slept = []\<rparr>"
  define w2 where "w2 = \<lparr>sent = [treq, oreq, creq], slept = []\<rparr>"
  define procs1 where "procs1 = [select_args (ascii ''ffmpeg'') row 0]"
  have nonempty: "ascii ''ffmpeg'' \<noteq> []" "ascii ''AK'' \<noteq> []" "ascii ''SK'' \<noteq> []" "ascii ''tok'' \<noteq> []"
    "ascii ''accurate_basic'' \<noteq> []" "ascii ''hello'' \<noteq> []"
    by (simp_all add: ascii_def)
  have strips: "py_strip (ascii ''AK'') = ascii ''AK''" "py_strip (ascii ''SK'') = ascii ''SK''"
    "py_strip (ascii ''DK'') = ascii ''DK''" "py_strip (ascii ''s'') = ascii ''s''"
    "py_strip (ascii ''u'') = ascii ''u''" "py_strip (ascii ''hello'') = ascii ''hello''"
    "py_rstrip (ascii ''u'') = ascii ''u''" "py_strip [] = []"
    "rstrip_by (\<lambda>c. c = 47) [] = []"
    "py_lower (py_strip (ascii ''accurate_basic'')) = ascii ''accurate_basic''"
    by (simp_all add: py_lower_def str_eval)
  have ne2: "ascii ''DK'' \<noteq> []" "ascii ''s'' \<noteq> []" "ascii ''u'' \<noteq> []"
    by (simp_all add: ascii_def)
  have client0: "client_api_key client0 = ascii ''AK''" "client_secret_key client0 = ascii ''SK''"
    "client_timeout_s client0 = 60" "client_retries client0 = 2"
    "token_cache client0 = \<lparr>token = [], expires_at_epoch = 0\<rparr>"
    by (simp_all add: client0_def new_BaiduOcrClient_def strips)
  have e1: "extract_frame_as_png_bytes (\<lambda>c. Some (ascii ''ffmpeg'')) (\<lambda>k. Completed 0 [2, 3, 4] [])
              (\<lambda>b. Some (7 :: nat)) [] row 1 = (Inr ([2, 3, 4], 7), procs1)"
    by (simp add: extract_frame_as_png_bytes_def run_extract_def decode_png_def Let_def nonempty
          procs1_def)
  have tok: "get_access_token net 1000 client0 w0 = (Inr (ascii ''tok''), client1, \<lparr>sent = [treq], slept = []\<rparr>)"
    by (simp add: get_access_token_def client0 nonempty post_with_retries.simps net_def tokp_def
          w0_def client1_def treq_def)
  have e2: "recognize net 1000 (\<lambda>b. b) client0 w0 [2, 3, 4] (ascii ''accurate_basic'') (ascii ''CHN_ENG'') True
              = (Inr (ascii ''hello''), client1, w1)"
    unfolding recognize_def tok
    by (simp add: strips nonempty Let_def client1_def client0 post_with_retries.simps net_def
          ocrp_def w1_def oreq_def)
  have title: "title_of_content (ascii ''good title'') = ascii ''good title''"
    by (simp add: title_of_content_def first_non_empty_line_def splitlines_def sub_quotes_def
          sub_label_def after_label_def is_quote_or_space_def is_label_sep_def is_linebreak_def
          Let_def str_eval)
  have e3: "extract_title_sentence net (\<lambda>t x. Some (t @ x)) (ascii ''DK'') [] [] (ascii ''hello'')
              (ascii ''s'') (ascii ''u'') 60 2 w1 = (Inr (ascii ''good title''), w2)"
    by (simp add: extract_title_sentence_def strips ne2 nonempty Let_def post_with_retries.simps
          net_def chatp_def w1_def w2_def creq_def title)
  have e4: "build_target_path row 1 3 (ascii ''good title'') = Inr target"
    by (simp add: build_target_path_def sanitize_filename_component_def windows_invalid_char_def
          default_fallback_def Let_def str_eval path_eval row_def target_def)
  have ne: "target \<noteq> row" by (simp add: target_def row_def ascii_def)
  have e5: "pick_non_conflicting_path {row} target None = Some target"
    using ne by (simp add: pick_non_conflicting_path_def)
  have cfgs: "start_index cfg = 1" "frame_number_1based cfg = 1" "index_padding cfg = 3"
    "baidu_ocr_mode cfg = ascii ''accurate_basic''" "deepseek_api_key cfg = ascii ''DK''"
    "deepseek_base_url cfg = []" "deepseek_model cfg = []" "deepseek_system_prompt cfg = ascii ''s''"
    "deepseek_user_prompt_template cfg = ascii ''u''" "baidu_api_key cfg = ascii ''AK''"
    "baidu_secret_key cfg = ascii ''SK''" "dry_run cfg"
    by (simp_all add: cfg_def)
  have envs: "env_which env = (\<lambda>c. Some (ascii ''ffmpeg''))" "env_run env = (\<lambda>k. Completed 0 [2, 3, 4] [])"
    "env_decode env = (\<lambda>b. Some 7)" "env_net env = net" "env_now env = (\<lambda>k. 1000)"
    "env_fmt env = (\<lambda>t x. Some (t @ x))" "env_encode env = (\<lambda>b. b)" "env_stop env = (\<lambda>k. False)"
    by (simp_all add: env_def)
  have tname: "name target = ascii ''001-good title.mp4''" by (simp add: target_def)
  have dry: "run_worker env cfg [row] {row}
      = Some \<lparr>ws_queue = [StatusEvent row STATUS_READING, PreviewEvent row 7, StatusEvent row STATUS_OCR,
                 OcrEvent row (ascii ''hello''), StatusEvent row STATUS_DEEPSEEK,
                 TitleEvent row (ascii ''good title'') (ascii ''001-good title.mp4''),
                 StatusEvent row STATUS_DONE, ProgressEvent 1, DoneEvent DONE_MESSAGE],
               ws_disk = {row}, ws_http = w2, ws_procs = procs1, ws_client = client1\<rparr>"
    by (simp add: run_worker_def process_item_def Let_def put_def cfgs envs client0_def [symmetric]
          w0_def [symmetric] e1 e2 e3 e4 e5 tname)
  have live: "run_worker env (cfg\<lparr>dry_run := False\<rparr>) [row] {row}
      = Some \<lparr>ws_queue = [StatusEvent row STATUS_READING, PreviewEvent row 7, StatusEvent row STATUS_OCR,
                 OcrEvent row (ascii ''hello''), StatusEvent row STATUS_DEEPSEEK,
                 TitleEvent row (ascii ''good title'') (ascii ''001-good title.mp4''),
                 RenamedEvent row target, StatusEvent target STATUS_DONE, ProgressEvent 1,
                 DoneEvent DONE_MESSAGE],
               ws_disk = {target}, ws_http = w2, ws_procs = procs1, ws_client = client1\<rparr>"
    by (simp add: run_worker_def process_item_def Let_def put_def cfgs envs client0_def [symmetric]
          w0_def [symmetric] e1 e2 e3 e4 e5 tname path_rename_def)
  have "STATUS_DONE \<noteq> STATUS_PREVIEW" by (simp add: STATUS_DONE_def STATUS_PREVIEW_def)
  with dry live show ?thesis
    unfolding Let_def row_def [symmetric] target_def [symmetric] tokp_def [symmetric]
      ocrp_def [symmetric] chatp_def [symmetric] net_def [symmetric] env_def [symmetric]
      cfg_def [symmetric]
    by simp
qed

end
